theory Spec2Isabelle
  imports Main "HOL-Library.Word"
begin

section \<open>Strings and character classes\<close>

text \<open>
  A JavaScript string is modelled as a \<open>string\<close>: one \<open>char\<close> stands for one UTF-16
  code unit in the range U+0000 .. U+00FF. The character classes below are the ECMAScript
  classes restricted to that range.
\<close>

definition LF :: char where "LF = CHR 0x0A"
definition CR :: char where "CR = CHR 0x0D"

text \<open>\<open>\s\<close>, also the set removed by \<open>String.prototype.trim\<close>: TAB, LF, VT, FF, CR, SP, NBSP.\<close>

definition isSpace :: "char \<Rightarrow> bool" where
  "isSpace c = (c \<in> set [CHR 0x09, CHR 0x0A, CHR 0x0B, CHR 0x0C, CHR 0x0D, CHR 0x20, CHR 0xA0])"

text \<open>\<open>\d\<close>\<close>

definition isDigit :: "char \<Rightarrow> bool" where
  "isDigit c = (c \<in> set ''0123456789'')"

definition isUpper :: "char \<Rightarrow> bool" where
  "isUpper c = (c \<in> set ''ABCDEFGHIJKLMNOPQRSTUVWXYZ'')"

definition isLower :: "char \<Rightarrow> bool" where
  "isLower c = (c \<in> set ''abcdefghijklmnopqrstuvwxyz'')"

text \<open>\<open>\w\<close>\<close>

definition isWord :: "char \<Rightarrow> bool" where
  "isWord c = (isUpper c \<or> isLower c \<or> isDigit c \<or> c = CHR ''_'')"

text \<open>\<open>.\<close> (no \<open>s\<close> flag): any code unit but a line terminator.\<close>

definition isDot :: "char \<Rightarrow> bool" where
  "isDot c = (c \<noteq> CHR 0x0A \<and> c \<noteq> CHR 0x0D)"

definition isNonSpace :: "char \<Rightarrow> bool" where
  "isNonSpace c = (\<not> isSpace c)"

text \<open>
  Canonicalisation of the \<open>i\<close> flag (without \<open>u\<close>): the upper-case form of a code unit.
  For the ASCII characters the patterns of this program are written in, only an
  ASCII letter has a second form.
\<close>

fun lookupChar :: "(char \<times> char) list \<Rightarrow> char \<Rightarrow> char" where
  "lookupChar [] c = c"
| "lookupChar ((a, b) # ps) c = (if c = a then b else lookupChar ps c)"

definition canonicalize :: "char \<Rightarrow> char" where
  "canonicalize c = lookupChar (zip ''abcdefghijklmnopqrstuvwxyz'' ''ABCDEFGHIJKLMNOPQRSTUVWXYZ'') c"

text \<open>\<open>Array.prototype.join\<close> on an array of strings.\<close>

fun join :: "string \<Rightarrow> string list \<Rightarrow> string" where
  "join sep [] = []"
| "join sep [x] = x"
| "join sep (x # y # ys) = x @ sep @ join sep (y # ys)"

text \<open>\<open>String.prototype.startsWith\<close> and \<open>endsWith\<close>.\<close>

definition startsWith :: "string \<Rightarrow> string \<Rightarrow> bool" where
  "startsWith s p = (take (length p) s = p)"

definition endsWith :: "string \<Rightarrow> string \<Rightarrow> bool" where
  "endsWith s p = (length p \<le> length s \<and> drop (length s - length p) s = p)"

text \<open>\<open>Array.prototype.contains\<close>, the host's addition to arrays, on an array of strings.\<close>

definition contains :: "string list \<Rightarrow> string \<Rightarrow> bool" where
  "contains xs x = (x \<in> set xs)"

text \<open>\<open>Array.prototype.slice(start, end)\<close> for indices that are not negative.\<close>

definition slice :: "'a list \<Rightarrow> nat \<Rightarrow> nat \<Rightarrow> 'a list" where
  "slice xs start end = take (end - start) (drop start xs)"

text \<open>\<open>String.prototype.trim\<close>\<close>

definition trim :: "string \<Rightarrow> string" where
  "trim s = rev (dropWhile isSpace (rev (dropWhile isSpace s)))"

text \<open>
  \<open>split(/\r?\n/)\<close>: the pattern matches LF, or CR directly followed by LF, and never the
  empty string, so the pieces are the runs between those separators (one piece for the
  empty string).
\<close>

fun splitLines :: "string \<Rightarrow> string \<Rightarrow> string list" where
  "splitLines piece [] = [piece]"
| "splitLines piece [c] = (if c = LF then [piece, []] else [piece @ [c]])"
| "splitLines piece (c # d # cs) =
     (if c = LF then piece # splitLines [] (d # cs)
      else if c = CR \<and> d = LF then piece # splitLines [] cs
      else splitLines (piece @ [c]) (d # cs))"

section \<open>Values\<close>

text \<open>
  The data the program handles: what \<open>JSON.parse\<close> returns, and \<open>undefined\<close>, which
  the program stores in the objects it builds. A number is a safe integer (magnitude below
  \<open>2 ^ 53\<close>, a year or a volume), which \<open>ToString\<close> writes in decimal; other numbers
  have no value in this model. An object is the list of its own properties in
  enumeration order, which is the order \<open>for ... in\<close> visits them; no property of such
  an object is a function.
\<close>

datatype jsval =
    JUndefined
  | JNull
  | JBool bool
  | JNum "54 word"
  | JStr string
  | JArr "jsval list"
  | JObj "(string \<times> jsval) list"

text \<open>
  What a property of a \<open>Reference\<close> or a variable of type \<open>any\<close> can hold besides data:
  \<open>NaN\<close> (from \<open>parseInt\<close>) and a built-in function that a plain object inherits from
  \<open>Object.prototype\<close>, given by its name.
\<close>

datatype propval = Value jsval | NaN | Function string

datatype error = TypeError

definition bindE :: "error + 'a \<Rightarrow> ('a \<Rightarrow> error + 'b) \<Rightarrow> error + 'b" where
  "bindE r f = (case r of Inl e \<Rightarrow> Inl e | Inr x \<Rightarrow> f x)"

text \<open>\<open>Array.prototype.map\<close> with a callback that can throw: the first throw ends it.\<close>

fun mapE :: "('a \<Rightarrow> error + 'b) \<Rightarrow> 'a list \<Rightarrow> error + 'b list" where
  "mapE f [] = Inr []"
| "mapE f (x # xs) =
     (case f x of
        Inl e \<Rightarrow> Inl e
      | Inr y \<Rightarrow> (case mapE f xs of Inl e \<Rightarrow> Inl e | Inr ys \<Rightarrow> Inr (y # ys)))"

definition digitChar :: "nat \<Rightarrow> char" where
  "digitChar d = ''0123456789'' ! d"

fun showNat :: "nat \<Rightarrow> string" where
  "showNat n = (if n < 10 then [digitChar n] else showNat (n div 10) @ [digitChar (n mod 10)])"

declare showNat.simps [simp del]

definition showInt :: "int \<Rightarrow> string" where
  "showInt n = (if n < 0 then CHR ''-'' # showNat (nat (- n)) else showNat (nat n))"

text \<open>
  \<open>ToString\<close>, as a template literal, string concatenation and a computed property name
  apply it. An object is converted by its \<open>toString\<close> method: the inherited one answers
  \<open>[object Object]\<close>; an own property \<open>toString\<close> is data, so it cannot be called, nor
  can \<open>valueOf\<close> give a primitive, and the conversion throws a \<open>TypeError\<close>. An array is
  converted by \<open>join\<close>, which writes \<open>null\<close> and \<open>undefined\<close> as the empty string and
  converts every other element.
\<close>

fun toString :: "jsval \<Rightarrow> error + string"
  and joinElements :: "jsval list \<Rightarrow> error + string" where
  "toString JUndefined = Inr ''undefined''"
| "toString JNull = Inr ''null''"
| "toString (JBool b) = Inr (if b then ''true'' else ''false'')"
| "toString (JNum n) = Inr (showInt (sint n))"
| "toString (JStr s) = Inr s"
| "toString (JArr xs) = joinElements xs"
| "toString (JObj ps) =
     (if ''toString'' \<in> set (map fst ps) then Inl TypeError else Inr ''[object Object]'')"
| "joinElements [] = Inr []"
| "joinElements (x # xs) =
     (case (case x of JUndefined \<Rightarrow> Inr [] | JNull \<Rightarrow> Inr [] | _ \<Rightarrow> toString x) of
        Inl e \<Rightarrow> Inl e
      | Inr a \<Rightarrow>
          (if xs = [] then Inr a
           else (case joinElements xs of Inl e \<Rightarrow> Inl e | Inr b \<Rightarrow> Inr (a @ '','' @ b))))"

text \<open>\<open>ToString\<close> of what a property can hold.\<close>

fun toStringP :: "propval \<Rightarrow> error + string" where
  "toStringP (Value v) = toString v"
| "toStringP NaN = Inr ''NaN''"
| "toStringP (Function n) = Inr (''function '' @ n @ ''() { [native code] }'')"

text \<open>
  The properties every plain object inherits from \<open>Object.prototype\<close>. None is
  enumerable, so \<open>for ... in\<close> does not visit them, but a read by name finds them.
\<close>

definition objectPrototype :: "string \<Rightarrow> propval option" where
  "objectPrototype k =
     (if k = ''constructor'' then Some (Function ''Object'')
      else if k \<in> set [''toString'', ''toLocaleString'', ''valueOf'', ''hasOwnProperty'',
                        ''isPrototypeOf'', ''propertyIsEnumerable'', ''__defineGetter__'',
                        ''__defineSetter__'', ''__lookupGetter__'', ''__lookupSetter__'']
      then Some (Function k)
      else if k = ''__proto__'' then Some (Value (JObj []))
      else None)"

text \<open>
  Reading property \<open>k\<close> of a plain object by a computed name: its own property, else the
  inherited one.
\<close>

definition objGet :: "(string \<times> propval) list \<Rightarrow> string \<Rightarrow> propval" where
  "objGet ps k =
     (case map_of ps k of
        Some v \<Rightarrow> v
      | None \<Rightarrow> (case objectPrototype k of Some v \<Rightarrow> v | None \<Rightarrow> Value JUndefined))"

text \<open>
  Reading property \<open>k\<close> of a data object, for the fixed names the program reads
  (\<open>last\<close>, \<open>first\<close>, \<open>author\<close>, \<open>given\<close>, \<open>family\<close>, \<open>title\<close>, \<open>issued\<close>, ...), none
  of which \<open>Object.prototype\<close> defines: the own property, else \<open>undefined\<close>.
\<close>

definition ownGet :: "(string \<times> jsval) list \<Rightarrow> string \<Rightarrow> jsval" where
  "ownGet ps k = (case map_of ps k of Some v \<Rightarrow> v | None \<Rightarrow> JUndefined)"

text \<open>
  Reading one of those names of any value: \<open>null\<close> and \<open>undefined\<close> throw; an array, a
  string, a number or a boolean has no such property in ECMAScript and answers
  \<open>undefined\<close>. The host adds methods to the built-in prototypes, among them \<open>first\<close>
  and \<open>last\<close> of arrays, which this model leaves out: the description of the author
  line below is stated for authors that are not arrays.
\<close>

fun getProp :: "jsval \<Rightarrow> string \<Rightarrow> error + jsval" where
  "getProp JUndefined k = Inl TypeError"
| "getProp JNull k = Inl TypeError"
| "getProp (JObj ps) k = Inr (ownGet ps k)"
| "getProp v k = Inr JUndefined"

text \<open>Reading index \<open>i\<close>, as in \<open>x[0]\<close>.\<close>

fun getIndex :: "jsval \<Rightarrow> nat \<Rightarrow> error + jsval" where
  "getIndex JUndefined i = Inl TypeError"
| "getIndex JNull i = Inl TypeError"
| "getIndex (JArr xs) i = Inr (if i < length xs then xs ! i else JUndefined)"
| "getIndex (JStr s) i = Inr (if i < length s then JStr [s ! i] else JUndefined)"
| "getIndex (JObj ps) i = Inr (ownGet ps (showNat i))"
| "getIndex v i = Inr JUndefined"

section \<open>Regular expressions\<close>

text \<open>
  The constructs the program's patterns use, with the backtracking semantics of
  ECMAScript: a match state is the captures so far, the index reached and the input
  left; matching returns the states a pattern can end in, in the order backtracking
  tries them (greedy quantifiers longest first, the lazy one shortest first).
\<close>

type_synonym captures = "(string \<times> string) list"
type_synonym mstate = "captures \<times> nat \<times> string"

datatype rx =
    Eps
  | Chr char
  | ChrI char
  | Cls "char \<Rightarrow> bool"
  | Cat rx rx
  | Opt rx
  | Star "char \<Rightarrow> bool"
  | Plus "char \<Rightarrow> bool"
  | PlusLazy "char \<Rightarrow> bool"
  | Group string rx
  | Bol
  | Eol

fun rx_match :: "rx \<Rightarrow> mstate \<Rightarrow> mstate list" where
  "rx_match Eps st = [st]"
| "rx_match (Chr c) (cs, i, s) =
     (case s of [] \<Rightarrow> [] | x # xs \<Rightarrow> if x = c then [(cs, Suc i, xs)] else [])"
| "rx_match (ChrI c) (cs, i, s) =
     (case s of [] \<Rightarrow> []
      | x # xs \<Rightarrow> if canonicalize x = canonicalize c then [(cs, Suc i, xs)] else [])"
| "rx_match (Cls p) (cs, i, s) =
     (case s of [] \<Rightarrow> [] | x # xs \<Rightarrow> if p x then [(cs, Suc i, xs)] else [])"
| "rx_match (Cat a b) st = concat (map (rx_match b) (rx_match a st))"
| "rx_match (Opt a) st = rx_match a st @ [st]"
| "rx_match (Star p) (cs, i, s) =
     map (\<lambda>k. (cs, i + k, drop k s)) (rev [0 ..< Suc (length (takeWhile p s))])"
| "rx_match (Plus p) (cs, i, s) =
     map (\<lambda>k. (cs, i + k, drop k s)) (rev [1 ..< Suc (length (takeWhile p s))])"
| "rx_match (PlusLazy p) (cs, i, s) =
     map (\<lambda>k. (cs, i + k, drop k s)) [1 ..< Suc (length (takeWhile p s))]"
| "rx_match (Group n a) (cs, i, s) =
     map (\<lambda>(cs', j, s'). ((n, take (j - i) s) # cs', j, s')) (rx_match a (cs, i, s))"
| "rx_match Bol (cs, i, s) = (if i = 0 then [(cs, i, s)] else [])"
| "rx_match Eol (cs, i, s) = (if s = [] then [(cs, i, s)] else [])"

text \<open>A sequence of patterns, a literal, a literal under the \<open>i\<close> flag, and \<open>r{n}\<close>.\<close>

fun cat :: "rx list \<Rightarrow> rx" where
  "cat [] = Eps"
| "cat (r # rs) = Cat r (cat rs)"

definition lit :: "string \<Rightarrow> rx" where
  "lit s = cat (map Chr s)"

definition litI :: "string \<Rightarrow> rx" where
  "litI s = cat (map ChrI s)"

definition rep :: "nat \<Rightarrow> rx \<Rightarrow> rx" where
  "rep n r = cat (replicate n r)"

text \<open>
  \<open>RegExp.prototype.exec\<close> from index 0 without the \<open>g\<close> and \<open>y\<close> flags: the first start
  index, from the left, at which the pattern matches, with the first state backtracking
  finds there. The second argument is the start index, the third the input from there.
\<close>

fun rx_search :: "rx \<Rightarrow> nat \<Rightarrow> string \<Rightarrow> (nat \<times> mstate) option" where
  "rx_search r i [] = (case rx_match r ([], i, []) of m # _ \<Rightarrow> Some (i, m) | [] \<Rightarrow> None)"
| "rx_search r i (x # xs) =
     (case rx_match r ([], i, x # xs) of
        m # _ \<Rightarrow> Some (i, m)
      | [] \<Rightarrow> rx_search r (Suc i) xs)"

definition rx_exec :: "rx \<Rightarrow> string \<Rightarrow> (nat \<times> mstate) option" where
  "rx_exec r s = rx_search r 0 s"

text \<open>\<open>s.match(r)\<close> followed by \<open>.groups.name\<close>: \<open>None\<close> when the pattern does not match.\<close>

definition matchGroup :: "rx \<Rightarrow> string \<Rightarrow> string \<Rightarrow> string option" where
  "matchGroup r name s =
     (case rx_exec r s of
        None \<Rightarrow> None
      | Some (i, (cs, j, rest)) \<Rightarrow> map_of cs name)"

text \<open>\<open>s.replace(r, '')\<close> without the \<open>g\<close> flag: the first match is cut out.\<close>

definition replaceEmpty :: "rx \<Rightarrow> string \<Rightarrow> string" where
  "replaceEmpty r s =
     (case rx_exec r s of
        None \<Rightarrow> s
      | Some (i, (cs, j, rest)) \<Rightarrow> take i s @ rest)"

section \<open>The plugin\<close>

subsection \<open>Constants\<close>

text \<open>\<open>DOI_TYPE_LOOKUP\<close>: from doi reference types to bibtex reference types.\<close>

definition DOI_TYPE_LOOKUP :: "(string \<times> propval) list" where
  "DOI_TYPE_LOOKUP =
     [(''article-journal'', Value (JStr ''article'')),
      (''monograph'', Value (JStr ''book'')),
      (''report'', Value (JStr ''techreport''))]"

text \<open>\<open>LINKED_FIELDS\<close>: the fields that are linked.\<close>

definition LINKED_FIELDS :: "string list" where
  "LINKED_FIELDS = [''journal'', ''publisher'']"

subsection \<open>The markdown post-processor\<close>

text \<open>
  An element is its tag and its child nodes. \<open>InnerText t\<close> stands for the child nodes
  the \<open>innerText\<close> setter builds from the string \<open>t\<close>.
\<close>

datatype node = Element string "node list" | InnerText string

record HTMLElement =
  tagName :: string
  childNodes :: "node list"

record MarkdownSectionInformation =
  text' :: string
  lineStart :: nat
  lineEnd :: nat

text \<open>\<open>/^\^{3}\s*/\<close> and \<open>/\s*\^{3}$/\<close>\<close>

definition leadingFence :: rx where
  "leadingFence = cat [Bol, rep 3 (Chr (CHR ''^'')), Star isSpace]"

definition trailingFence :: rx where
  "trailingFence = cat [Star isSpace, rep 3 (Chr (CHR ''^'')), Eol]"

text \<open>The two \<open>replace\<close> calls that drop the leading and the trailing \<open>^^^\<close>.\<close>

definition dropFence :: "string \<Rightarrow> string" where
  "dropFence t = replaceEmpty trailingFence (replaceEmpty leadingFence t)"

text \<open>The markdown text of the section: lines \<open>lineStart\<close> to \<open>lineEnd\<close> of the note.\<close>

definition sectionText :: "MarkdownSectionInformation \<Rightarrow> string" where
  "sectionText sectionInfo =
     (let lines = splitLines [] (text' sectionInfo)
      in join [LF] (slice lines (lineStart sectionInfo) (lineEnd sectionInfo + 1)))"

text \<open>
  \<open>postprocessor(el, ctx)\<close>: the second argument is what \<open>ctx.getSectionInfo(el)\<close>
  returns, \<open>None\<close> for \<open>null\<close>. The result is the element afterwards.
\<close>

definition postprocessor ::
  "HTMLElement \<Rightarrow> MarkdownSectionInformation option \<Rightarrow> HTMLElement" where
  "postprocessor el sectionInfo =
     (case sectionInfo of
        None \<Rightarrow> el
      | Some info \<Rightarrow>
          (let t = sectionText info
           in if \<not> startsWith t ''^^^'' \<or> \<not> endsWith t ''^^^'' then el
              else el\<lparr>childNodes :=
                     [Element ''pre'' [Element ''code'' [InnerText (dropFence t)]]]\<rparr>))"

subsection \<open>formatReference\<close>

text \<open>
  A \<open>Reference\<close> is a plain object: its own properties in enumeration order, with
  \<open>authors\<close> an array of author objects (or \<open>null\<close>, which the arXiv branch can push).
\<close>

type_synonym Reference = "(string \<times> propval) list"

text \<open>The callback of \<open>reference.authors.map\<close>: \<open>[[${author.last}, ${author.first}]]\<close>.\<close>

definition formatAuthor :: "jsval \<Rightarrow> error + string" where
  "formatAuthor author =
     bindE (getProp author ''last'') (\<lambda>last.
     bindE (toString last) (\<lambda>l.
     bindE (getProp author ''first'') (\<lambda>first.
     bindE (toString first) (\<lambda>f.
     Inr (''[['' @ l @ '', '' @ f @ '']]'')))))"

text \<open>\<open>reference.authors.map(...)\<close>: only an array has \<open>map\<close>.\<close>

definition authorNames :: "Reference \<Rightarrow> error + string list" where
  "authorNames reference =
     (case objGet reference ''authors'' of
        Value (JArr authors) \<Rightarrow> mapE formatAuthor authors
      | _ \<Rightarrow> Inl TypeError)"

text \<open>The \<open>for (let key in reference)\<close> loop, over the keys left, with \<open>lines\<close> so far.\<close>

fun formatFields ::
  "Reference \<Rightarrow> bool \<Rightarrow> string list \<Rightarrow> string list \<Rightarrow> error + string list" where
  "formatFields reference link [] lines = Inr lines"
| "formatFields reference link (key # keys) lines =
     (if key = ''authors'' \<or> key = ''type'' then formatFields reference link keys lines
      else
        bindE (let value = objGet reference key
               in if link \<and> contains LINKED_FIELDS key
                  then bindE (toStringP value) (\<lambda>v. Inr (Value (JStr (''[['' @ v @ '']]''))))
                  else Inr value) (\<lambda>value.
        bindE (toStringP value) (\<lambda>v.
        formatFields reference link keys (lines @ [key @ '' = { '' @ v @ '' }'']))))"

definition formatReference :: "Reference \<Rightarrow> bool \<Rightarrow> error + string" where
  "formatReference reference link =
     bindE (toStringP (objGet reference ''type'')) (\<lambda>type.
     bindE (authorNames reference) (\<lambda>names.
     bindE (formatFields reference link (map fst reference)
              [''@'' @ type @ ''{CITEKEY'',
               ''author = { '' @ join '' and '' names @ '' }'']) (\<lambda>lines.
     Inr (join ('','' @ [LF] @ ''  '') lines @ [LF] @ ''}''))))"

subsection \<open>ReferenceModal: state and patterns\<close>

text \<open>
  The fields of the modal the program reads and writes: \<open>lastQuery\<close> (\<open>None\<close> for
  \<open>null\<close>), \<open>lastSuggestions\<close>, the inherited \<open>emptyStateText\<close>, and the number of
  \<open>input\<close> events dispatched to \<open>inputEl\<close>.
\<close>

record ReferenceModal =
  lastQuery :: "string option"
  lastSuggestions :: "Reference list"
  emptyStateText :: string
  inputEvents :: nat

text \<open>
  \<open>/^(:?https?:\/\/arxiv\.org\/\w{3}\/)?(:?arXiv:)?(?<identifier>\d{4}\.\d{5})(:?.pdf)?$/i\<close>.
  The groups written \<open>(:?\<close> are capturing groups that start with an optional colon;
  they are numbered 1, 2 and 4.
\<close>

definition arxivPattern :: rx where
  "arxivPattern =
     cat [Bol,
          Opt (Group ''1'' (cat [Opt (ChrI (CHR '':'')), litI ''http'', Opt (ChrI (CHR ''s'')),
                                litI ''://arxiv.org/'', rep 3 (Cls isWord), ChrI (CHR ''/'')])),
          Opt (Group ''2'' (cat [Opt (ChrI (CHR '':'')), litI ''arXiv:''])),
          Group ''identifier'' (cat [rep 4 (Cls isDigit), ChrI (CHR ''.''), rep 5 (Cls isDigit)]),
          Opt (Group ''4'' (cat [Opt (ChrI (CHR '':'')), Cls isDot, litI ''pdf''])),
          Eol]"

text \<open>\<open>/^(?<first>.+?)\s+(?<last>[^\s]+)$/\<close>\<close>

definition arxivAuthorPattern :: rx where
  "arxivAuthorPattern =
     cat [Bol, Group ''first'' (PlusLazy isDot), Plus isSpace,
          Group ''last'' (Plus isNonSpace), Eol]"

text \<open>\<open>/^(?:https?:\/\/(?:dx\.)?doi\.org\/)?(?:doi:)?(?<identifier>10\.\d{4}\/.*)/\<close>\<close>

definition doiPattern :: rx where
  "doiPattern =
     cat [Bol,
          Opt (cat [lit ''http'', Opt (Chr (CHR ''s'')), lit ''://'', Opt (lit ''dx.''),
                    lit ''doi.org/'']),
          Opt (lit ''doi:''),
          Group ''identifier'' (cat [lit ''10.'', rep 4 (Cls isDigit), Chr (CHR ''/''),
                                     Star isDot])]"

subsection \<open>dispatchSuggestions\<close>

definition dispatchSuggestions ::
  "ReferenceModal \<Rightarrow> string \<Rightarrow> Reference list \<Rightarrow> ReferenceModal" where
  "dispatchSuggestions this query suggestions =
     this\<lparr>lastSuggestions := suggestions,
          lastQuery := Some query,
          emptyStateText := ''No results found'',
          inputEvents := inputEvents this + 1\<rparr>"

subsection \<open>The arXiv callback\<close>

text \<open>
  The parsed XML payload: an element with its children, or a text node.
  \<open>getElementsByTagName\<close> lists the descendant elements of that name in document order.
\<close>

datatype xml = XElement string "xml list" | XText string

fun textContent :: "xml \<Rightarrow> string" where
  "textContent (XText t) = t"
| "textContent (XElement n cs) = concat (map textContent cs)"

fun elementsOf :: "xml \<Rightarrow> xml list" where
  "elementsOf (XText t) = []"
| "elementsOf (XElement n cs) = XElement n cs # concat (map elementsOf cs)"

fun tagOf :: "xml \<Rightarrow> string" where
  "tagOf (XText t) = []"
| "tagOf (XElement n cs) = n"

text \<open>On an element: its descendants. On the document: the root element and its descendants.\<close>

fun getElementsByTagName :: "xml \<Rightarrow> string \<Rightarrow> xml list" where
  "getElementsByTagName (XText t) name = []"
| "getElementsByTagName (XElement n cs) name =
     filter (\<lambda>e. tagOf e = name) (concat (map elementsOf cs))"

definition documentElementsByTagName :: "xml \<Rightarrow> string \<Rightarrow> xml list" where
  "documentElementsByTagName root name = filter (\<lambda>e. tagOf e = name) (elementsOf root)"

text \<open>
  \<open>parseInt(s)\<close> without a radix: leading white space, a sign, a \<open>0x\<close> prefix, then the
  longest run of digits; \<open>None\<close> is \<open>NaN\<close>. The program applies it to the first two
  characters of the identifier, so the number is small.
\<close>

fun indexOf :: "'a list \<Rightarrow> 'a \<Rightarrow> nat" where
  "indexOf [] c = 0"
| "indexOf (x # xs) c = (if x = c then 0 else Suc (indexOf xs c))"

definition isHexDigit :: "char \<Rightarrow> bool" where
  "isHexDigit c = (c \<in> set ''0123456789abcdefABCDEF'')"

definition digitValue :: "char \<Rightarrow> nat" where
  "digitValue c =
     (if c \<in> set ''ABCDEF'' then 10 + indexOf ''ABCDEF'' c else indexOf ''0123456789abcdef'' c)"

definition digitsValue :: "nat \<Rightarrow> string \<Rightarrow> nat" where
  "digitsValue radix z = foldl (\<lambda>acc c. acc * radix + digitValue c) 0 z"

definition parseInt :: "string \<Rightarrow> int option" where
  "parseInt str =
     (let s = dropWhile isSpace str;
          negative = startsWith s ''-'';
          s = (if startsWith s ''+'' \<or> startsWith s ''-'' then drop 1 s else s);
          hex = (startsWith s ''0x'' \<or> startsWith s ''0X'');
          s = (if hex then drop 2 s else s);
          z = takeWhile (if hex then isHexDigit else isDigit) s;
          n = int (digitsValue (if hex then 16 else 10) z)
      in if z = [] then None else Some (if negative then - n else n))"

text \<open>One \<open>author\<close> element: the author object, or \<open>null\<close> when the pattern fails.\<close>

definition arxivAuthor :: "xml \<Rightarrow> jsval" where
  "arxivAuthor author =
     (case rx_exec arxivAuthorPattern (trim (textContent author)) of
        Some (i, (groups, j, rest)) \<Rightarrow>
          JObj [(''first'', case map_of groups ''first'' of Some s \<Rightarrow> JStr s | None \<Rightarrow> JUndefined),
                (''last'', case map_of groups ''last'' of Some s \<Rightarrow> JStr s | None \<Rightarrow> JUndefined)]
      | None \<Rightarrow> JNull)"

text \<open>
  One \<open>entry\<close> element: the suggestion pushed for it. Reading \<open>textContent\<close> of the first
  \<open>title\<close> element throws when the entry has none.
\<close>

definition arxivEntry :: "string \<Rightarrow> xml \<Rightarrow> error + Reference" where
  "arxivEntry identifier entry =
     (let authors = map arxivAuthor (getElementsByTagName entry ''author'')
      in case getElementsByTagName entry ''title'' of
           [] \<Rightarrow> Inl TypeError
         | title # _ \<Rightarrow>
             Inr [(''type'', Value (JStr ''article'')),
                  (''authors'', Value (JArr authors)),
                  (''year'', case parseInt (take 2 identifier) of
                               Some n \<Rightarrow> Value (JNum (word_of_int (2000 + n))) | None \<Rightarrow> NaN),
                  (''title'', Value (JStr (textContent title))),
                  (''journal'', Value (JStr ''arXiv'')),
                  (''arxiv'', Value (JStr identifier)),
                  (''pages'', Value (JStr identifier))])"

definition arxivSuggestions :: "string \<Rightarrow> xml \<Rightarrow> error + Reference list" where
  "arxivSuggestions identifier payload =
     mapE (arxivEntry identifier) (documentElementsByTagName payload ''entry'')"

text \<open>
  The callback of the arXiv fetch, on the parsed payload. A throw rejects the promise and
  leaves the modal as it was.
\<close>

definition arxivThen :: "ReferenceModal \<Rightarrow> string \<Rightarrow> string \<Rightarrow> xml \<Rightarrow> error + ReferenceModal" where
  "arxivThen this query identifier payload =
     (case arxivSuggestions identifier payload of
        Inl e \<Rightarrow> Inl e
      | Inr suggestions \<Rightarrow> Inr (dispatchSuggestions this query suggestions))"

subsection \<open>The DOI callback\<close>

text \<open>
  \<open>for (let author of v)\<close>: an array gives its elements, a string its characters, and
  every other value of the model is not iterable.
\<close>

fun iterate :: "jsval \<Rightarrow> error + jsval list" where
  "iterate (JArr xs) = Inr xs"
| "iterate (JStr s) = Inr (map (\<lambda>c. JStr [c]) s)"
| "iterate v = Inl TypeError"

text \<open>
  \<open>v == s\<close> for a string \<open>s\<close> that is not a numeric literal (\<open>'article'\<close>, \<open>'book'\<close>,
  \<open>'techreport'\<close>): a string compares as it is, an object, an array or a function by its
  string form, and nothing else is equal to it.
\<close>

fun looseEqualsString :: "propval \<Rightarrow> string \<Rightarrow> error + bool" where
  "looseEqualsString (Value (JStr t)) s = Inr (t = s)"
| "looseEqualsString (Value (JArr xs)) s = bindE (toString (JArr xs)) (\<lambda>t. Inr (t = s))"
| "looseEqualsString (Value (JObj ps)) s = bindE (toString (JObj ps)) (\<lambda>t. Inr (t = s))"
| "looseEqualsString (Function n) s = bindE (toStringP (Function n)) (\<lambda>t. Inr (t = s))"
| "looseEqualsString v s = Inr False"

text \<open>\<open>obj.k = v\<close>: a new property goes last, an old one keeps its place.\<close>

fun setProp :: "(string \<times> propval) list \<Rightarrow> string \<Rightarrow> propval \<Rightarrow> (string \<times> propval) list" where
  "setProp [] k v = [(k, v)]"
| "setProp ((k', v') # ps) k v =
     (if k' = k then (k, v) # ps else (k', v') # setProp ps k v)"

definition doiAuthor :: "jsval \<Rightarrow> error + jsval" where
  "doiAuthor author =
     bindE (getProp author ''given'') (\<lambda>given.
     bindE (getProp author ''family'') (\<lambda>family.
     Inr (JObj [(''first'', given), (''last'', family)])))"

text \<open>
  The suggestion built from the parsed JSON payload. \<open>DOI_TYPE_LOOKUP[payload.type]\<close>
  converts the type of the payload to a property name, and the message logged for an
  unrecognised type converts the looked-up type to a string.
\<close>

definition doiSuggestion :: "string \<Rightarrow> jsval \<Rightarrow> error + Reference" where
  "doiSuggestion identifier payload =
     bindE (getProp payload ''author'') (\<lambda>payloadAuthor.
     bindE (iterate payloadAuthor) (\<lambda>payloadAuthors.
     bindE (mapE doiAuthor payloadAuthors) (\<lambda>authors.
     bindE (getProp payload ''type'') (\<lambda>payloadType.
     bindE (toString payloadType) (\<lambda>typeKey.
     bindE (getProp payload ''title'') (\<lambda>title.
     bindE (getProp payload ''issued'') (\<lambda>issued.
     bindE (getProp issued ''date-parts'') (\<lambda>dateParts.
     bindE (getIndex dateParts 0) (\<lambda>dateParts0.
     bindE (getIndex dateParts0 0) (\<lambda>year.
       (let type = objGet DOI_TYPE_LOOKUP typeKey;
            suggestion = [(''title'', Value title),
                          (''authors'', Value (JArr authors)),
                          (''type'', type),
                          (''year'', Value year),
                          (''doi'', Value (JStr identifier))]
        in bindE (looseEqualsString type ''article'') (\<lambda>isArticle.
           if isArticle then
             bindE (getProp payload ''container-title'') (\<lambda>journal.
             bindE (getProp payload ''volume'') (\<lambda>volume.
             bindE (getProp payload ''page'') (\<lambda>page.
             bindE (getProp payload ''journal-issue'') (\<lambda>journalIssue.
             bindE (getProp journalIssue ''issue'') (\<lambda>issue.
               Inr (setProp (setProp (setProp (setProp suggestion
                      ''journal'' (Value journal)) ''volume'' (Value volume))
                      ''pages'' (Value page)) ''number'' (Value issue)))))))
           else
             bindE (looseEqualsString type ''book'') (\<lambda>isBook.
             if isBook then
               bindE (getProp payload ''publisher'') (\<lambda>publisher.
                 Inr (setProp suggestion ''publisher'' (Value publisher)))
             else
               bindE (looseEqualsString type ''techreport'') (\<lambda>isTechreport.
               if isTechreport then
                 bindE (getProp payload ''institution'') (\<lambda>institution.
                   Inr (setProp suggestion ''institution'' (Value institution)))
               else
                 bindE (toStringP type) (\<lambda>message. Inr suggestion)))))))))))))))"

definition doiThen :: "ReferenceModal \<Rightarrow> string \<Rightarrow> string \<Rightarrow> jsval \<Rightarrow> error + ReferenceModal" where
  "doiThen this query identifier payload =
     (case doiSuggestion identifier payload of
        Inl e \<Rightarrow> Inl e
      | Inr suggestion \<Rightarrow> Inr (dispatchSuggestions this query [suggestion]))"

subsection \<open>getSuggestions\<close>

text \<open>
  A call of \<open>fetch(url, init).then(callback)\<close>: the callback is one of the two arrow
  functions, with the \<open>query\<close> and the \<open>identifier\<close> it closes over.
\<close>

datatype callback = ArxivThen string string | DoiThen string string

record fetch =
  url :: string
  headers :: "(string \<times> string) list"
  callback :: callback

text \<open>
  \<open>getSuggestions(query)\<close>: the suggestions returned, the modal afterwards, and the
  fetch issued, if any. The \<open>identifier\<close> group is not optional in either pattern.
\<close>

definition getSuggestions ::
  "ReferenceModal \<Rightarrow> string \<Rightarrow> Reference list \<times> ReferenceModal \<times> fetch option" where
  "getSuggestions this query =
     (if query \<noteq> [] \<and> lastQuery this = Some query then (lastSuggestions this, this, None)
      else
        (let this = this\<lparr>emptyStateText := ''Fetching results...''\<rparr>;
             arxivMatch = matchGroup arxivPattern ''identifier'' query;
             doiMatch = matchGroup doiPattern ''identifier'' query
         in case arxivMatch of
              Some identifier \<Rightarrow>
                ([], this,
                 Some \<lparr>url = ''https://export.arxiv.org/api/query?id_list='' @ identifier,
                       headers = [],
                       callback = ArxivThen query identifier\<rparr>)
            | None \<Rightarrow>
                (case doiMatch of
                   Some identifier \<Rightarrow>
                     ([], this,
                      Some \<lparr>url = ''https://data.crossref.org/'' @ identifier,
                            headers = [(''Accept'', ''application/json'')],
                            callback = DoiThen query identifier\<rparr>)
                 | None \<Rightarrow>
                     ([], this\<lparr>emptyStateText := ''Pattern not recognised''\<rparr>, None))))"

subsection \<open>The modal with its requests in flight\<close>

text \<open>
  The host calls \<open>getSuggestions\<close> on every input, and a response resolves whenever it
  arrives: the modal together with the fetches that have not resolved yet, and the
  events that move it. A response carries the parsed body; one whose callback throws, or
  whose body is of the other kind, or that is rejected, leaves the modal as it was.
\<close>

record session =
  modal :: ReferenceModal
  pending :: "fetch list"

datatype event =
    Call string
  | ResolveXml nat xml
  | ResolveJson nat jsval
  | Reject nat

definition removeAt :: "nat \<Rightarrow> 'a list \<Rightarrow> 'a list" where
  "removeAt i xs = take i xs @ drop (Suc i) xs"

definition settle :: "session \<Rightarrow> nat \<Rightarrow> error + ReferenceModal \<Rightarrow> session" where
  "settle s i r =
     \<lparr>modal = (case r of Inl e \<Rightarrow> modal s | Inr this \<Rightarrow> this),
      pending = removeAt i (pending s)\<rparr>"

fun step :: "session \<Rightarrow> event \<Rightarrow> session" where
  "step s (Call query) =
     (case getSuggestions (modal s) query of
        (suggestions, this, None) \<Rightarrow> s\<lparr>modal := this\<rparr>
      | (suggestions, this, Some f) \<Rightarrow> \<lparr>modal = this, pending = pending s @ [f]\<rparr>)"
| "step s (ResolveXml i payload) =
     (if i < length (pending s) then
        (case callback (pending s ! i) of
           ArxivThen query identifier \<Rightarrow>
             settle s i (arxivThen (modal s) query identifier payload)
         | DoiThen query identifier \<Rightarrow> settle s i (Inl TypeError))
      else s)"
| "step s (ResolveJson i payload) =
     (if i < length (pending s) then
        (case callback (pending s ! i) of
           DoiThen query identifier \<Rightarrow>
             settle s i (doiThen (modal s) query identifier payload)
         | ArxivThen query identifier \<Rightarrow> settle s i (Inl TypeError))
      else s)"
| "step s (Reject i) =
     (if i < length (pending s) then settle s i (Inl TypeError) else s)"

definition run :: "session \<Rightarrow> event list \<Rightarrow> session" where
  "run s events = foldl step s events"

subsection \<open>onChooseSuggestion\<close>

text \<open>
  The vault of the host, as the program sees it through \<open>getAbstractFileByPath\<close>: a
  file with its content or a folder at a path. \<open>createFolder\<close> and \<open>create\<close> are the
  host's; they are taken to reject when the path is taken and to add the entry otherwise.
\<close>

datatype abstractFile = TFile string | TFolder

type_synonym vault = "string \<Rightarrow> abstractFile option"

record BibliographyPluginSettings =
  bibliographyFolder :: string

datatype hostError = Rejected error | AlreadyExists

definition createFolder :: "vault \<Rightarrow> string \<Rightarrow> hostError + vault" where
  "createFolder v path = (if v path \<noteq> None then Inl AlreadyExists else Inr (v(path \<mapsto> TFolder)))"

definition create :: "vault \<Rightarrow> string \<Rightarrow> string \<Rightarrow> hostError + vault" where
  "create v path data = (if v path \<noteq> None then Inl AlreadyExists else Inr (v(path \<mapsto> TFile data)))"

text \<open>
  The loop that fills the local \<open>lines\<close> array. \<open>value\<close> is one \<open>var\<close> of the whole
  function, \<open>undefined\<close> at first, and \<open>reference[value]\<close> reads the property named by
  its own previous content, converted to a property name. Each conversion to a string can
  throw.
\<close>

fun chooseLines ::
  "Reference \<Rightarrow> string list \<Rightarrow> propval \<Rightarrow> string list \<Rightarrow> error + string list" where
  "chooseLines reference [] value lines = Inr lines"
| "chooseLines reference (key # keys) value lines =
     (if key = ''authors'' then chooseLines reference keys value lines
      else
        bindE (toStringP value) (\<lambda>name.
        bindE (let value = objGet reference name
               in if contains LINKED_FIELDS key
                  then bindE (toStringP value) (\<lambda>v. Inr (Value (JStr (''[['' @ v @ '']]''))))
                  else Inr value) (\<lambda>value.
        bindE (toStringP value) (\<lambda>v.
        chooseLines reference keys value
          (lines @ [''  '' @ key @ '' = { '' @ v @ '' },''])))))"

text \<open>The content written to the note.\<close>

definition noteContent :: "string \<Rightarrow> string" where
  "noteContent formatted = ''^^^'' @ [LF] @ formatted @ [LF] @ ''^^^''"

text \<open>
  \<open>onChooseSuggestion(reference, evt)\<close>: the vault afterwards, and the error the async
  function rejected with, if any. \<open>reference.title + '.md'\<close> converts the title to a
  string first.
\<close>

definition onChooseSuggestion ::
  "BibliographyPluginSettings \<Rightarrow> vault \<Rightarrow> Reference \<Rightarrow> vault \<times> hostError option" where
  "onChooseSuggestion settings v reference =
     (case toStringP (objGet reference ''title'') of
        Inl e \<Rightarrow> (v, Some (Rejected e))
      | Inr title \<Rightarrow>
     (let itemPath = title @ ''.md'';
          folderPath = bibliographyFolder settings;
          folderStep =
            (if folderPath \<noteq> [] then
               (case v folderPath of
                  Some TFolder \<Rightarrow> Inr (v, folderPath @ ''/'' @ itemPath)
                | _ \<Rightarrow>
                    (case createFolder v folderPath of
                       Inl e \<Rightarrow> Inl e
                     | Inr v' \<Rightarrow> Inr (v', folderPath @ ''/'' @ itemPath)))
             else Inr (v, itemPath))
      in case folderStep of
           Inl e \<Rightarrow> (v, Some e)
         | Inr (v, itemPath) \<Rightarrow>
             (case v itemPath of
                Some (TFile content) \<Rightarrow> (v, None)
              | _ \<Rightarrow>
                  (case chooseLines reference (map fst reference) (Value JUndefined) [] of
                     Inl e \<Rightarrow> (v, Some (Rejected e))
                   | Inr lines \<Rightarrow>
                       (case formatReference reference True of
                          Inl e \<Rightarrow> (v, Some (Rejected e))
                        | Inr formatted \<Rightarrow>
                            (case create v itemPath (noteContent formatted) of
                               Inl e \<Rightarrow> (v, Some e)
                             | Inr v' \<Rightarrow> (v', None)))))))"

subsection \<open>The format, as the specification words it\<close>

text \<open>
  An author is written \<open>[[last, first]]\<close>, whatever \<open>link\<close> is; a property of a value
  that has none reads as \<open>undefined\<close>. Writing a value is converting it to a string.
\<close>

definition spec_property :: "jsval \<Rightarrow> string \<Rightarrow> jsval" where
  "spec_property v k = (case v of JObj ps \<Rightarrow> ownGet ps k | _ \<Rightarrow> JUndefined)"

definition spec_author :: "jsval \<Rightarrow> error + string" where
  "spec_author author =
     bindE (toString (spec_property author ''last'')) (\<lambda>l.
     bindE (toString (spec_property author ''first'')) (\<lambda>f.
     Inr (''[['' @ l @ '', '' @ f @ '']]'')))"

text \<open>A field value is wrapped exactly when \<open>link\<close> holds and the key is a linked field.\<close>

definition spec_value :: "bool \<Rightarrow> string \<Rightarrow> propval \<Rightarrow> error + string" where
  "spec_value link key v =
     bindE (toStringP v) (\<lambda>t.
     Inr (if link \<and> (key = ''journal'' \<or> key = ''publisher'') then ''[['' @ t @ '']]'' else t))"

definition spec_fieldLine :: "Reference \<Rightarrow> bool \<Rightarrow> string \<Rightarrow> error + string" where
  "spec_fieldLine reference link key =
     bindE (spec_value link key (objGet reference key)) (\<lambda>t.
     Inr (key @ '' = { '' @ t @ '' }''))"

text \<open>One line for each key but \<open>authors\<close> and \<open>type\<close>, in the order of the keys.\<close>

definition spec_fieldLines :: "Reference \<Rightarrow> bool \<Rightarrow> error + string list" where
  "spec_fieldLines reference link =
     mapE (spec_fieldLine reference link)
       (filter (\<lambda>key. key \<noteq> ''authors'' \<and> key \<noteq> ''type'') (map fst reference))"

text \<open>
  The header, the author line and the field lines, joined; a \<open>TypeError\<close> when one of
  the values written cannot be converted to a string.
\<close>

definition spec_format :: "Reference \<Rightarrow> bool \<Rightarrow> jsval list \<Rightarrow> error + string" where
  "spec_format reference link authors =
     bindE (toStringP (objGet reference ''type'')) (\<lambda>type.
     bindE (mapE spec_author authors) (\<lambda>names.
     bindE (spec_fieldLines reference link) (\<lambda>fieldLines.
     Inr (join ('','' @ [LF] @ ''  '')
            ([''@'' @ type @ ''{CITEKEY'',
              ''author = { '' @ join '' and '' names @ '' }'']
             @ fieldLines)
          @ [LF] @ ''}''))))"

text \<open>
  The modal as the constructor leaves it, with the \<open>emptyStateText\<close> the host gave it,
  and no request in flight.
\<close>

definition newModal :: "string \<Rightarrow> ReferenceModal" where
  "newModal hostText =
     \<lparr>lastQuery = None, lastSuggestions = [], emptyStateText = hostText, inputEvents = 0\<rparr>"

definition newSession :: "string \<Rightarrow> session" where
  "newSession hostText = \<lparr>modal = newModal hostText, pending = []\<rparr>"

subsection \<open>Notions the properties are stated with\<close>

text \<open>The names of the capture groups of a pattern.\<close>

primrec groupNames :: "rx \<Rightarrow> string set" where
  "groupNames Eps = {}"
| "groupNames (Chr c) = {}"
| "groupNames (ChrI c) = {}"
| "groupNames (Cls p) = {}"
| "groupNames (Cat a b) = groupNames a \<union> groupNames b"
| "groupNames (Opt a) = groupNames a"
| "groupNames (Star p) = {}"
| "groupNames (Plus p) = {}"
| "groupNames (PlusLazy p) = {}"
| "groupNames (Group n a) = insert n (groupNames a)"
| "groupNames Bol = {}"
| "groupNames Eol = {}"

text \<open>An identifier of the form YYMM.NNNNN: four digits, a dot, five digits.\<close>

definition isArxivIdentifier :: "string \<Rightarrow> bool" where
  "isArxivIdentifier s =
     (length s = 10 \<and> list_all isDigit (take 4 s) \<and> s ! 4 = CHR ''.'' \<and>
      list_all isDigit (drop 5 s))"

text \<open>The number that the first two characters of a string write in decimal.\<close>

definition spec_twoDigits :: "string \<Rightarrow> int" where
  "spec_twoDigits s = 10 * (of_char (s ! 0) - 48) + (of_char (s ! 1) - 48)"

text \<open>
  The path of the note for a title: \<open>bibliographyFolder + '/' + title + '.md'\<close>, or
  \<open>title + '.md'\<close> when the folder setting is empty.
\<close>

definition spec_notePath :: "BibliographyPluginSettings \<Rightarrow> string \<Rightarrow> string" where
  "spec_notePath settings title =
     (if bibliographyFolder settings = []
      then title @ ''.md''
      else bibliographyFolder settings @ ''/'' @ title @ ''.md'')"

text \<open>
  Choosing a suggestion, as the specification words it: the folder is created when it is
  missing, and when no file is at the path of the note, the note is created there with the
  formatted reference between two fences.
\<close>

definition spec_onChoose ::
  "BibliographyPluginSettings \<Rightarrow> vault \<Rightarrow> Reference \<Rightarrow> vault \<times> hostError option" where
  "spec_onChoose settings v reference =
     (case toStringP (objGet reference ''title'') of
        Inl e \<Rightarrow> (v, Some (Rejected e))
      | Inr title \<Rightarrow>
     (let folderPath = bibliographyFolder settings;
          path = spec_notePath settings title
      in case (if folderPath \<noteq> [] \<and> v folderPath \<noteq> Some TFolder
               then createFolder v folderPath else Inr v) of
           Inl e \<Rightarrow> (v, Some e)
         | Inr v1 \<Rightarrow>
             (case v1 path of
                Some (TFile content) \<Rightarrow> (v1, None)
              | _ \<Rightarrow>
                  (case formatReference reference True of
                     Inl e \<Rightarrow> (v1, Some (Rejected e))
                   | Inr formatted \<Rightarrow>
                       (case create v1 path (noteContent formatted) of
                          Inl e \<Rightarrow> (v1, Some e)
                        | Inr v2 \<Rightarrow> (v2, None))))))"

section \<open>Properties\<close>

subsection \<open>Regular expressions on the fence patterns\<close>

lemma isSpace_caret [simp]: "\<not> isSpace (CHR ''^'')"
  by (simp add: isSpace_def)

lemma isSpace_LF [simp]: "isSpace LF"
  by (simp add: isSpace_def LF_def)

lemma map_rev_upt_Suc:
  "map f (rev [0 ..< Suc (Suc n)]) = map (\<lambda>k. f (Suc k)) (rev [0 ..< Suc n]) @ [f 0]"
proof -
  have "[0 ..< Suc (Suc n)] = 0 # map Suc [0 ..< Suc n]"
    by (simp only: map_Suc_upt) (simp add: upt_rec)
  then have "rev [0 ..< Suc (Suc n)] = rev (map Suc [0 ..< Suc n]) @ [0]"
    by (simp only: rev.simps)
  then show ?thesis
    by (simp only: map_append rev_map map_map comp_def list.map)
qed

text \<open>A greedy star first tries to take one more character, then to stop here.\<close>

lemma rx_match_Star_Cons:
  "rx_match (Star p) (cs, i, x # xs) =
     (if p x then rx_match (Star p) (cs, Suc i, xs) @ [(cs, i, x # xs)] else [(cs, i, x # xs)])"
proof (cases "p x")
  case False
  then show ?thesis by simp
next
  case True
  then have "rx_match (Star p) (cs, i, x # xs) =
      map (\<lambda>k. (cs, i + k, drop k (x # xs))) (rev [0 ..< Suc (Suc (length (takeWhile p xs)))])"
    by (simp del: upt_Suc)
  also have "\<dots> = map (\<lambda>k. (cs, i + Suc k, drop (Suc k) (x # xs)))
                     (rev [0 ..< Suc (length (takeWhile p xs))]) @ [(cs, i + 0, drop 0 (x # xs))]"
    by (rule map_rev_upt_Suc)
  also have "\<dots> = rx_match (Star p) (cs, Suc i, xs) @ [(cs, i, x # xs)]"
    by (simp del: upt_Suc)
  finally show ?thesis using True by simp
qed

lemma rx_match_carets:
  "rx_match (cat [rep 3 (Chr (CHR ''^'')), Eol]) (cs, j, v) =
     (if v = ''^^^'' then [(cs, j + 3, [])] else [])"
  by (auto simp: rep_def eval_nat_numeral split: list.splits)

lemma rx_match_leadingFence:
  "rx_match leadingFence ([], 0, CHR ''^'' # CHR ''^'' # CHR ''^'' # t) =
     map (\<lambda>k. ([], 3 + k, drop k t)) (rev [0 ..< Suc (length (takeWhile isSpace t))])"
  by (simp add: leadingFence_def rep_def eval_nat_numeral comp_def del: upt_Suc)

text \<open>The first \<open>replace\<close> on a text that starts with the fence.\<close>

lemma replaceEmpty_leadingFence:
  "replaceEmpty leadingFence (''^^^'' @ t) = dropWhile isSpace t"
  by (simp add: replaceEmpty_def rx_exec_def rx_match_leadingFence dropWhile_eq_drop)

lemma rx_search_unfold:
  "rx_search r i s =
     (case rx_match r ([], i, s) of
        m # _ \<Rightarrow> Some (i, m)
      | [] \<Rightarrow> (case s of [] \<Rightarrow> None | x # xs \<Rightarrow> rx_search r (Suc i) xs))"
  by (cases s) (simp_all split: list.splits)

text \<open>At one start index, the trailing pattern matches white space and the fence, no more.\<close>

lemma rx_match_trailingFence:
  "rx_match trailingFence (cs, i, u) =
     (if dropWhile isSpace u = ''^^^'' then [(cs, i + length u, [])] else [])"
proof -
  have "rx_match (Cat (Star isSpace) (cat [rep 3 (Chr (CHR ''^'')), Eol])) (cs, i, u) =
     (if dropWhile isSpace u = ''^^^'' then [(cs, i + length u, [])] else [])"
  proof (induction u arbitrary: i)
    case Nil
    show ?case by (simp add: rx_match_carets del: cat.simps)
  next
    case (Cons x xs)
    have split: "rx_match (Cat (Star isSpace) (cat [rep 3 (Chr (CHR ''^'')), Eol])) (cs, i, x # xs) =
       (if isSpace x
        then rx_match (Cat (Star isSpace) (cat [rep 3 (Chr (CHR ''^'')), Eol])) (cs, Suc i, xs) @
             rx_match (cat [rep 3 (Chr (CHR ''^'')), Eol]) (cs, i, x # xs)
        else rx_match (cat [rep 3 (Chr (CHR ''^'')), Eol]) (cs, i, x # xs))"
      by (simp only: rx_match.simps(5) rx_match_Star_Cons) simp
    show ?case
    proof (cases "isSpace x")
      case True
      then have "x \<noteq> CHR ''^''" by auto
      with True show ?thesis
        by (simp only: split Cons.IH rx_match_carets) auto
    next
      case False
      then show ?thesis
        by (simp only: split rx_match_carets) auto
    qed
  qed
  then show ?thesis by (simp add: trailingFence_def)
qed

lemma dropWhile_isSpace_body:
  assumes "b \<noteq> []" and "\<not> isSpace (last b)"
  shows "dropWhile isSpace (b @ t @ ''^^^'') \<noteq> ''^^^''"
proof -
  have in_b: "last b \<in> set b" using assms(1) by simp
  then have eq: "dropWhile isSpace (b @ t @ ''^^^'') = dropWhile isSpace b @ t @ ''^^^''"
    using assms(2) by (meson dropWhile_append1)
  have "dropWhile isSpace b \<noteq> []"
    using in_b assms(2) by auto
  then have "3 < length (dropWhile isSpace b @ t @ ''^^^'')"
    by (cases "dropWhile isSpace b") simp_all
  then show ?thesis
    unfolding eq by auto
qed

text \<open>
  The search passes over a body that does not end in white space and stops at the white
  space before the closing fence.
\<close>

lemma rx_search_trailingFence:
  assumes "b = [] \<or> \<not> isSpace (last b)" and "\<forall>c\<in>set w. isSpace c"
  shows "rx_search trailingFence i (b @ w @ ''^^^'') =
           Some (i + length b, ([], i + length b + length w + 3, []))"
  using assms(1)
proof (induction b arbitrary: i)
  case Nil
  have "dropWhile isSpace (w @ ''^^^'') = ''^^^''"
    using assms(2) by simp
  then show ?case
    by (subst rx_search_unfold) (simp add: rx_match_trailingFence)
next
  case (Cons x b)
  have nomatch: "dropWhile isSpace ((x # b) @ w @ ''^^^'') \<noteq> ''^^^''"
    using Cons.prems by (intro dropWhile_isSpace_body) auto
  have tail: "b = [] \<or> \<not> isSpace (last b)"
    using Cons.prems by (cases b) auto
  have "rx_search trailingFence i ((x # b) @ w @ ''^^^'') =
          rx_search trailingFence (Suc i) (b @ w @ ''^^^'')"
    using nomatch by (subst rx_search_unfold) (simp add: rx_match_trailingFence)
  then show ?case
    using Cons.IH [OF tail, of "Suc i"] by simp
qed

lemma replaceEmpty_trailingFence:
  assumes "b = [] \<or> \<not> isSpace (last b)" and "\<forall>c\<in>set w. isSpace c"
  shows "replaceEmpty trailingFence (b @ w @ ''^^^'') = b"
  using rx_search_trailingFence [OF assms, of 0]
  by (simp add: replaceEmpty_def rx_exec_def)

subsection \<open>Functions that can throw\<close>

lemma bindE_simps [simp]:
  "bindE (Inl e) f = Inl e"
  "bindE (Inr x) f = f x"
  by (simp_all add: bindE_def)

lemma bindE_Inr: "bindE r f = Inr y \<Longrightarrow> \<exists>x. r = Inr x \<and> f x = Inr y"
  by (cases r) simp_all

lemma error_is_TypeError: "(e :: error) = TypeError"
  by (cases e) simp

lemma mapE_Inr_map:
  "(\<And>x. x \<in> set xs \<Longrightarrow> f x = Inr (g x)) \<Longrightarrow> mapE f xs = Inr (map g xs)"
  by (induction xs) simp_all

lemma mapE_cong:
  "(\<And>x. x \<in> set xs \<Longrightarrow> f x = g x) \<Longrightarrow> mapE f xs = mapE g xs"
  by (induction xs) (auto split: sum.splits)

lemma mapE_Inl:
  "x \<in> set xs \<Longrightarrow> f x = Inl e \<Longrightarrow> \<exists>e'. mapE f xs = Inl e'"
  by (induction xs) (auto split: sum.splits)

subsection \<open>The shape of a formatted reference\<close>

lemma join_Cons: "join sep (x # ys) = x @ concat (map (\<lambda>y. sep @ y) ys)"
  by (induction ys arbitrary: x) simp_all

text \<open>A field line is written by two conversions when the value is wrapped, else by one.\<close>

lemma fieldLine_eq:
  "bindE (let value = objGet reference key
          in if link \<and> contains LINKED_FIELDS key
             then bindE (toStringP value) (\<lambda>v. Inr (Value (JStr (''[['' @ v @ '']]''))))
             else Inr value) (\<lambda>value.
   bindE (toStringP value) (\<lambda>v. k (key @ '' = { '' @ v @ '' }'')))
   = bindE (spec_fieldLine reference link key) k"
  by (cases "toStringP (objGet reference key)")
     (auto simp: spec_fieldLine_def spec_value_def contains_def LINKED_FIELDS_def Let_def)

text \<open>The loop appends one line for each key it does not skip.\<close>

lemma formatFields_eq:
  "formatFields reference link keys lines =
     bindE (mapE (spec_fieldLine reference link)
              (filter (\<lambda>key. key \<noteq> ''authors'' \<and> key \<noteq> ''type'') keys))
       (\<lambda>fieldLines. Inr (lines @ fieldLines))"
proof (induction keys arbitrary: lines)
  case Nil
  show ?case by simp
next
  case (Cons key keys)
  show ?case
  proof (cases "key = ''authors'' \<or> key = ''type''")
    case True
    then show ?thesis using Cons.IH [of lines] by auto
  next
    case False
    have "formatFields reference link (key # keys) lines =
            bindE (spec_fieldLine reference link key)
              (\<lambda>l. formatFields reference link keys (lines @ [l]))"
      using False
        fieldLine_eq [of reference key link "\<lambda>l. formatFields reference link keys (lines @ [l])"]
      by simp
    then show ?thesis
      using False
      by (cases "spec_fieldLine reference link key";
          cases "mapE (spec_fieldLine reference link)
                   (filter (\<lambda>key. key \<noteq> ''authors'' \<and> key \<noteq> ''type'') keys)")
         (simp_all add: Cons.IH)
  qed
qed

lemma formatReference_shape:
  assumes "formatReference reference link = Inr f"
  shows "\<exists>g. f = CHR ''@'' # g @ [LF, CHR ''}'']"
proof -
  from assms obtain type where
      rest: "bindE (authorNames reference) (\<lambda>names.
             bindE (formatFields reference link (map fst reference)
                      [''@'' @ type @ ''{CITEKEY'',
                       ''author = { '' @ join '' and '' names @ '' }'']) (\<lambda>lines.
             Inr (join ('','' @ [LF] @ ''  '') lines @ [LF] @ ''}''))) = Inr f"
    unfolding formatReference_def by (blast dest: bindE_Inr)
  from bindE_Inr [OF rest] obtain names where
      rest2: "bindE (formatFields reference link (map fst reference)
                      [''@'' @ type @ ''{CITEKEY'',
                       ''author = { '' @ join '' and '' names @ '' }'']) (\<lambda>lines.
              Inr (join ('','' @ [LF] @ ''  '') lines @ [LF] @ ''}'')) = Inr f"
    by blast
  from bindE_Inr [OF rest2] obtain lines where
      lines: "formatFields reference link (map fst reference)
                [''@'' @ type @ ''{CITEKEY'',
                 ''author = { '' @ join '' and '' names @ '' }''] = Inr lines"
      and f: "f = join ('','' @ [LF] @ ''  '') lines @ [LF] @ ''}''"
    by auto
  from lines obtain fieldLines where
      "lines = [''@'' @ type @ ''{CITEKEY'',
                ''author = { '' @ join '' and '' names @ '' }''] @ fieldLines"
    unfolding formatFields_eq by (auto dest!: bindE_Inr)
  then show ?thesis
    using f by (simp add: join_Cons)
qed

lemma dropFence_noteContent:
  assumes "formatReference reference link = Inr f"
  shows "dropFence (noteContent f) = f"
proof -
  obtain g where f: "f = CHR ''@'' # g @ [LF, CHR ''}'']"
    using formatReference_shape [OF assms] by blast
  have at: "\<not> isSpace (CHR ''@'')" by (simp add: isSpace_def)
  have lead: "replaceEmpty leadingFence (noteContent f) = f @ [LF] @ ''^^^''"
    unfolding noteContent_def replaceEmpty_leadingFence
    by (simp add: f at)
  have "\<not> isSpace (last f)" by (simp add: f isSpace_def)
  then have trail: "replaceEmpty trailingFence (f @ [LF] @ ''^^^'') = f"
    by (intro replaceEmpty_trailingFence) auto
  show ?thesis
    unfolding dropFence_def lead trail ..
qed

subsection \<open>C1: the note written on selection renders as the formatted reference\<close>

text \<open>
  C1. Whenever \<open>formatReference(r, true)\<close> returns a string \<open>f\<close>, the note body
  \<open>'^^^\n' + f + '\n^^^'\<close> passes the fence test of the post-processor, the two
  \<open>replace\<close> calls turn it back into exactly \<open>f\<close>, and on a section whose markdown text
  is that body the post-processor leaves one \<open>pre\<close>/\<open>code\<close> pair holding \<open>f\<close>.
\<close>

theorem C1_roundtrip:
  assumes "formatReference reference True = Inr f"
  shows "startsWith (noteContent f) ''^^^'' \<and> endsWith (noteContent f) ''^^^'' \<and>
         dropFence (noteContent f) = f \<and>
         (\<forall>el info. sectionText info = noteContent f \<longrightarrow>
            postprocessor el (Some info) =
              el\<lparr>childNodes := [Element ''pre'' [Element ''code'' [InnerText f]]]\<rparr>)"
proof -
  have fence: "startsWith (noteContent f) ''^^^'' \<and> endsWith (noteContent f) ''^^^''"
    by (simp add: noteContent_def startsWith_def endsWith_def)
  have body: "dropFence (noteContent f) = f"
    by (rule dropFence_noteContent [OF assms])
  show ?thesis
    using fence body by (simp add: postprocessor_def)
qed

theorem C1_roundtrip_witness:
  "formatReference
     [(''type'', Value (JStr ''article'')),
      (''authors'', Value (JArr [JObj [(''first'', JStr ''Ada''), (''last'', JStr ''King'')]])),
      (''year'', Value (JNum 2021)),
      (''title'', Value (JStr ''On Things'')),
      (''journal'', Value (JStr ''arXiv''))] True
     = Inr (''@article{CITEKEY,'' @ [LF] @ ''  author = { [[King, Ada]] },'' @ [LF] @
            ''  year = { 2021 },'' @ [LF] @ ''  title = { On Things },'' @ [LF] @
            ''  journal = { [[arXiv]] }'' @ [LF] @ ''}'') \<and>
   postprocessor \<lparr>tagName = ''div'', childNodes = [InnerText ''old'']\<rparr>
     (Some \<lparr>text' = ''# Notes'' @ [LF] @
               noteContent (''@article{CITEKEY,'' @ [LF] @ ''  author = { [[King, Ada]] },'' @ [LF] @
                 ''  year = { 2021 },'' @ [LF] @ ''  title = { On Things },'' @ [LF] @
                 ''  journal = { [[arXiv]] }'' @ [LF] @ ''}''),
             lineStart = 1, lineEnd = 8\<rparr>)
     = \<lparr>tagName = ''div'',
        childNodes = [Element ''pre'' [Element ''code'' [InnerText
          (''@article{CITEKEY,'' @ [LF] @ ''  author = { [[King, Ada]] },'' @ [LF] @
           ''  year = { 2021 },'' @ [LF] @ ''  title = { On Things },'' @ [LF] @
           ''  journal = { [[arXiv]] }'' @ [LF] @ ''}'')]]]\<rparr>"
proof -
  let ?r = "[(''type'', Value (JStr ''article'')),
      (''authors'', Value (JArr [JObj [(''first'', JStr ''Ada''), (''last'', JStr ''King'')]])),
      (''year'', Value (JNum 2021)),
      (''title'', Value (JStr ''On Things'')),
      (''journal'', Value (JStr ''arXiv''))]"
  let ?f = "''@article{CITEKEY,'' @ [LF] @ ''  author = { [[King, Ada]] },'' @ [LF] @
            ''  year = { 2021 },'' @ [LF] @ ''  title = { On Things },'' @ [LF] @
            ''  journal = { [[arXiv]] }'' @ [LF] @ ''}''"
  let ?info = "\<lparr>text' = ''# Notes'' @ [LF] @ noteContent ?f, lineStart = 1, lineEnd = 8\<rparr>"
  have h: "formatReference ?r True = Inr ?f"
    by code_simp
  have t: "sectionText ?info = noteContent ?f"
    by code_simp
  show ?thesis
    using h t C1_roundtrip [OF h] by simp
qed

subsection \<open>When formatReference returns\<close>

lemma formatAuthor_defined:
  "author \<noteq> JNull \<Longrightarrow> author \<noteq> JUndefined \<Longrightarrow> formatAuthor author = spec_author author"
  by (cases author) (simp_all add: formatAuthor_def spec_author_def spec_property_def)

lemma formatAuthor_null:
  "author = JNull \<or> author = JUndefined \<Longrightarrow> formatAuthor author = Inl TypeError"
  by (auto simp: formatAuthor_def)

lemma formatReference_eq:
  assumes "objGet reference ''authors'' = Value (JArr authors)"
    and "JNull \<notin> set authors" and "JUndefined \<notin> set authors"
  shows "formatReference reference link = spec_format reference link authors"
proof -
  have names: "mapE formatAuthor authors = mapE spec_author authors"
    using assms(2,3) by (intro mapE_cong formatAuthor_defined) auto
  show ?thesis
    by (cases "toStringP (objGet reference ''type'')"; cases "mapE spec_author authors";
        cases "spec_fieldLines reference link")
       (simp_all add: formatReference_def authorNames_def assms(1) names formatFields_eq
          spec_format_def spec_fieldLines_def [symmetric])
qed

lemma formatReference_Inl:
  assumes "objGet reference ''authors'' = Value (JArr authors)"
    and "JNull \<in> set authors \<or> JUndefined \<in> set authors"
  shows "formatReference reference link = Inl TypeError"
proof -
  obtain a where a: "a \<in> set authors" "formatAuthor a = Inl TypeError"
    using assms(2) formatAuthor_null by blast
  obtain e where e: "mapE formatAuthor authors = Inl e"
    using mapE_Inl [of a authors formatAuthor TypeError] a by blast
  have "authorNames reference = Inl e"
    using e by (simp add: authorNames_def assms(1))
  then have "\<exists>e'. formatReference reference link = Inl e'"
    by (cases "toStringP (objGet reference ''type'')") (simp_all add: formatReference_def)
  then show ?thesis
    using error_is_TypeError by metis
qed

lemma formatReference_not_array:
  assumes "\<forall>authors. objGet reference ''authors'' \<noteq> Value (JArr authors)"
  shows "formatReference reference link = Inl TypeError"
proof -
  have "authorNames reference = Inl TypeError"
  proof (cases "objGet reference ''authors''")
    case (Value v)
    then show ?thesis
      using assms unfolding authorNames_def by (cases v) simp_all
  qed (simp_all add: authorNames_def)
  then have "\<exists>e'. formatReference reference link = Inl e'"
    by (cases "toStringP (objGet reference ''type'')") (simp_all add: formatReference_def)
  then show ?thesis
    using error_is_TypeError by metis
qed

subsection \<open>C5: the linked fields\<close>

text \<open>
  C5. Take a reference whose \<open>authors\<close> is an array without \<open>null\<close> or \<open>undefined\<close> (on
  any other reference \<open>formatReference\<close> throws) and without an author that is itself an
  array (the host gives arrays methods named \<open>first\<close> and \<open>last\<close>). Then
  \<open>formatReference(r, link)\<close> does what the description says, throw for throw: it writes
  the header line, the author line with each author written \<open>[[last, first]]\<close> whatever
  \<open>link\<close> is, and one \<open>key = { value }\<close> line for each key other than \<open>authors\<close> and
  \<open>type\<close>, the value wrapped in \<open>[[...]]\<close> exactly when \<open>link\<close> is true and the key is
  \<open>journal\<close> or \<open>publisher\<close>. It returns that text when the type, the names of the
  authors and the field values all convert to strings, and throws a \<open>TypeError\<close> when one
  of them does not (an object with an own property \<open>toString\<close>).
\<close>

theorem C5_linked_fields:
  assumes "objGet reference ''authors'' = Value (JArr authors)"
    and "JNull \<notin> set authors" and "JUndefined \<notin> set authors"
    and "\<forall>xs. JArr xs \<notin> set authors"
  shows "formatReference reference link = spec_format reference link authors \<and>
         (\<forall>type names fieldLines.
            toStringP (objGet reference ''type'') = Inr type \<and>
            mapE spec_author authors = Inr names \<and>
            spec_fieldLines reference link = Inr fieldLines \<longrightarrow>
            formatReference reference link =
              Inr (join ('','' @ [LF] @ ''  '')
                     ([''@'' @ type @ ''{CITEKEY'',
                       ''author = { '' @ join '' and '' names @ '' }'']
                      @ fieldLines)
                   @ [LF] @ ''}'')) \<and>
         ((\<exists>e. toStringP (objGet reference ''type'') = Inl e) \<or>
          (\<exists>e. mapE spec_author authors = Inl e) \<or>
          (\<exists>e. spec_fieldLines reference link = Inl e) \<longrightarrow>
            formatReference reference link = Inl TypeError)"
proof -
  have eq: "formatReference reference link = spec_format reference link authors"
    using assms(1-3) by (rule formatReference_eq)
  have ret: "formatReference reference link =
              Inr (join ('','' @ [LF] @ ''  '')
                     ([''@'' @ type @ ''{CITEKEY'',
                       ''author = { '' @ join '' and '' names @ '' }'']
                      @ fieldLines)
                   @ [LF] @ ''}'')"
    if "toStringP (objGet reference ''type'') = Inr type"
      and "mapE spec_author authors = Inr names"
      and "spec_fieldLines reference link = Inr fieldLines"
    for type names fieldLines
    unfolding eq spec_format_def using that by simp
  have thr: "formatReference reference link = Inl TypeError"
    if "(\<exists>e. toStringP (objGet reference ''type'') = Inl e) \<or>
        (\<exists>e. mapE spec_author authors = Inl e) \<or>
        (\<exists>e. spec_fieldLines reference link = Inl e)"
  proof -
    have "\<exists>e. spec_format reference link authors = Inl e"
      using that unfolding spec_format_def
      by (cases "toStringP (objGet reference ''type'')"; cases "mapE spec_author authors";
          cases "spec_fieldLines reference link") auto
    then show ?thesis
      unfolding eq using error_is_TypeError by metis
  qed
  show ?thesis
    using eq ret thr by blast
qed

theorem C5_linked_fields_witness:
  "formatReference
     [(''title'', Value (JStr ''Logic'')),
      (''authors'', Value (JArr [JObj [(''first'', JStr ''Ada''), (''last'', JStr ''King'')],
                                 JObj [(''first'', JStr ''Bo''), (''last'', JStr ''Lee'')]])),
      (''type'', Value (JStr ''book'')),
      (''year'', Value (JNum 1999)),
      (''journal'', Value (JStr ''J'')),
      (''publisher'', Value (JStr ''P''))] True
     = Inr (''@book{CITEKEY,'' @ [LF] @ ''  author = { [[King, Ada]] and [[Lee, Bo]] },'' @ [LF] @
            ''  title = { Logic },'' @ [LF] @ ''  year = { 1999 },'' @ [LF] @
            ''  journal = { [[J]] },'' @ [LF] @ ''  publisher = { [[P]] }'' @ [LF] @ ''}'') \<and>
   formatReference
     [(''title'', Value (JStr ''Logic'')),
      (''authors'', Value (JArr [JObj [(''first'', JStr ''Ada''), (''last'', JStr ''King'')],
                                 JObj [(''first'', JStr ''Bo''), (''last'', JStr ''Lee'')]])),
      (''type'', Value (JStr ''book'')),
      (''year'', Value (JNum 1999)),
      (''journal'', Value (JStr ''J'')),
      (''publisher'', Value (JStr ''P''))] False
     = Inr (''@book{CITEKEY,'' @ [LF] @ ''  author = { [[King, Ada]] and [[Lee, Bo]] },'' @ [LF] @
            ''  title = { Logic },'' @ [LF] @ ''  year = { 1999 },'' @ [LF] @
            ''  journal = { J },'' @ [LF] @ ''  publisher = { P }'' @ [LF] @ ''}'') \<and>
   formatReference
     [(''type'', Value (JStr ''book'')),
      (''authors'', Value (JArr [])),
      (''publisher'', Value (JObj [(''toString'', JStr ''x'')]))] False
     = Inl TypeError"
proof -
  let ?as = "[JObj [(''first'', JStr ''Ada''), (''last'', JStr ''King'')],
              JObj [(''first'', JStr ''Bo''), (''last'', JStr ''Lee'')]]"
  let ?r = "[(''title'', Value (JStr ''Logic'')), (''authors'', Value (JArr ?as)),
             (''type'', Value (JStr ''book'')), (''year'', Value (JNum 1999)),
             (''journal'', Value (JStr ''J'')), (''publisher'', Value (JStr ''P''))]"
  let ?q = "[(''type'', Value (JStr ''book'')), (''authors'', Value (JArr [])),
             (''publisher'', Value (JObj [(''toString'', JStr ''x'')]))]"
  have a: "objGet ?r ''authors'' = Value (JArr ?as)"
    by (simp add: objGet_def)
  have n: "JNull \<notin> set ?as" "JUndefined \<notin> set ?as" "\<forall>xs. JArr xs \<notin> set ?as"
    by simp_all
  have t: "spec_format ?r True ?as =
      Inr (''@book{CITEKEY,'' @ [LF] @ ''  author = { [[King, Ada]] and [[Lee, Bo]] },'' @ [LF] @
      ''  title = { Logic },'' @ [LF] @ ''  year = { 1999 },'' @ [LF] @
      ''  journal = { [[J]] },'' @ [LF] @ ''  publisher = { [[P]] }'' @ [LF] @ ''}'')"
    by code_simp
  have f: "spec_format ?r False ?as =
      Inr (''@book{CITEKEY,'' @ [LF] @ ''  author = { [[King, Ada]] and [[Lee, Bo]] },'' @ [LF] @
      ''  title = { Logic },'' @ [LF] @ ''  year = { 1999 },'' @ [LF] @
      ''  journal = { J },'' @ [LF] @ ''  publisher = { P }'' @ [LF] @ ''}'')"
    by code_simp
  have b: "objGet ?q ''authors'' = Value (JArr [])"
    by (simp add: objGet_def)
  have m: "JNull \<notin> set []" "JUndefined \<notin> set []" "\<forall>xs. JArr xs \<notin> set []"
    by simp_all
  have p: "spec_fieldLines ?q False = Inl TypeError"
    by code_simp
  have 1: "formatReference ?r True = spec_format ?r True ?as"
    using C5_linked_fields [OF a n, of True] by (rule conjunct1)
  have 2: "formatReference ?r False = spec_format ?r False ?as"
    using C5_linked_fields [OF a n, of False] by (rule conjunct1)
  have 3: "formatReference ?q False = Inl TypeError"
    using C5_linked_fields [OF b m, of False] p by blast
  show ?thesis
    using 1 2 3 unfolding t f by (intro conjI)
qed

subsection \<open>What the patterns capture\<close>

lemma rx_match_caps_preserved:
  "st' \<in> set (rx_match r (cs, j, s)) \<Longrightarrow> n \<notin> groupNames r \<Longrightarrow> map_of (fst st') n = map_of cs n"
proof (induction r arbitrary: cs j s st')
  case (Cat a b)
  from Cat.prems(1) obtain mid where mid: "mid \<in> set (rx_match a (cs, j, s))"
      and st': "st' \<in> set (rx_match b mid)"
    by auto
  obtain cs1 j1 s1 where m: "mid = (cs1, j1, s1)" by (cases mid)
  have "map_of cs1 n = map_of cs n"
    using Cat.IH(1) [OF mid] Cat.prems(2) m by simp
  moreover have "map_of (fst st') n = map_of cs1 n"
    using Cat.IH(2) [of st' cs1 j1 s1] st' Cat.prems(2) m by simp
  ultimately show ?case by simp
next
  case (Group m a)
  from Group.prems(1) obtain cs1 j1 s1 where
      mid: "(cs1, j1, s1) \<in> set (rx_match a (cs, j, s))"
      and st': "st' = ((m, take (j1 - j) s) # cs1, j1, s1)"
    by auto
  have "map_of cs1 n = map_of cs n"
    using Group.IH [OF mid] Group.prems(2) by simp
  then show ?case using st' Group.prems(2) by simp
qed (auto split: list.splits if_splits)

lemma rx_match_Group_sets:
  "st' \<in> set (rx_match (Group n a) (cs, j, s)) \<Longrightarrow> \<exists>v. map_of (fst st') n = Some v"
  by auto

lemma rx_match_Cat_elim:
  "st' \<in> set (rx_match (Cat a b) st) \<Longrightarrow> \<exists>mid \<in> set (rx_match a st). st' \<in> set (rx_match b mid)"
  by auto

lemma rx_search_Some:
  "rx_search r i s = Some (k, m) \<Longrightarrow> \<exists>u. m \<in> set (rx_match r ([], k, u))"
proof (induction s arbitrary: i)
  case Nil
  then have "m \<in> set (rx_match r ([], k, []))"
    by (auto split: list.splits)
  then show ?case ..
next
  case (Cons x xs)
  show ?case
  proof (cases "rx_match r ([], i, x # xs)")
    case Nil
    with Cons.prems have "rx_search r (Suc i) xs = Some (k, m)" by simp
    then show ?thesis by (rule Cons.IH)
  next
    case (Cons m' ms)
    with Cons.prems have "k = i" "m = m'" by simp_all
    with Cons show ?thesis by (metis list.set_intros(1))
  qed
qed


lemma rx_match_rep_Cls:
  "rx_match (cat (replicate n (Cls p))) (cs, j, s) =
     (if n \<le> length s \<and> list_all p (take n s) then [(cs, j + n, drop n s)] else [])"
proof (induction n arbitrary: j s)
  case 0
  show ?case by simp
next
  case (Suc n)
  show ?case
  proof (cases s)
    case Nil
    then show ?thesis by simp
  next
    case (Cons x xs)
    then show ?thesis by (simp add: Suc.IH)
  qed
qed

lemma canonicalize_dot: "canonicalize x = canonicalize (CHR ''.'') \<longleftrightarrow> x = CHR ''.''"
  by (auto simp: canonicalize_def)

lemma length_10:
  "length xs = 10 \<Longrightarrow> \<exists>a b c d e f g h i k. xs = [a, b, c, d, e, f, g, h, i, k]"
  by (auto simp: eval_nat_numeral length_Suc_conv)

lemma rx_match_identifier_Cons:
  "rx_match (cat [rep 4 (Cls isDigit), ChrI (CHR ''.''), rep 5 (Cls isDigit)])
     (cs, j, a # b # c # d # e # f # g # h # i # k # rest) =
     (if isArxivIdentifier [a, b, c, d, e, f, g, h, i, k] then [(cs, j + 10, rest)] else [])"
  by (simp add: rep_def eval_nat_numeral isArxivIdentifier_def canonicalize_dot)

lemma rx_match_identifier:
  "rx_match (cat [rep 4 (Cls isDigit), ChrI (CHR ''.''), rep 5 (Cls isDigit)]) (cs, j, s) =
     (if isArxivIdentifier (take 10 s) then [(cs, j + 10, drop 10 s)] else [])"
proof (cases "10 \<le> length s")
  case True
  then have "length (take 10 s) = 10" by simp
  then obtain a b c d e f g h i k where tk: "take 10 s = [a, b, c, d, e, f, g, h, i, k]"
    using length_10 [of "take 10 s"] by auto
  then have s10: "a # b # c # d # e # f # g # h # i # k # drop 10 s = s"
    by (metis append_Cons append_Nil append_take_drop_id)
  have "rx_match (cat [rep 4 (Cls isDigit), ChrI (CHR ''.''), rep 5 (Cls isDigit)])
          (cs, j, a # b # c # d # e # f # g # h # i # k # drop 10 s) =
        (if isArxivIdentifier [a, b, c, d, e, f, g, h, i, k]
         then [(cs, j + 10, drop 10 s)] else [])"
    by (rule rx_match_identifier_Cons)
  then show ?thesis
    by (simp only: s10 tk)
next
  case False
  then have "\<not> isArxivIdentifier (take 10 s)"
    by (simp add: isArxivIdentifier_def)
  moreover have "rx_match (cat [rep 4 (Cls isDigit), ChrI (CHR ''.''), rep 5 (Cls isDigit)]) (cs, j, s) = []"
  proof -
    have shape: "cat [rep 4 (Cls isDigit), ChrI (CHR ''.''), rep 5 (Cls isDigit)] =
        Cat (cat (replicate 4 (Cls isDigit)))
          (Cat (ChrI (CHR ''.'')) (Cat (cat (replicate 5 (Cls isDigit))) Eps))"
      by (simp add: rep_def)
    have short: "\<And>x xs. x # xs = drop 4 s \<Longrightarrow> 5 \<le> length xs \<Longrightarrow> False"
    proof -
      fix x xs assume "x # xs = drop 4 s" and 5: "5 \<le> length xs"
      then have "length (drop 4 s) = Suc (length xs)" by (metis length_Cons)
      with False 5 show False by simp
    qed
    show ?thesis
      unfolding shape
      by (auto simp: rx_match_rep_Cls split: list.splits dest: short)
  qed
  ultimately show ?thesis by simp
qed


lemma rx_match_Group_Cat:
  assumes "st' \<in> set (rx_match (Cat (Group n b) X) st)" and "n \<notin> groupNames X"
  shows "\<exists>mid\<in>set (rx_match (Group n b) st). map_of (fst st') n = map_of (fst mid) n"
proof -
  obtain mid where mid: "mid \<in> set (rx_match (Group n b) st)" and st': "st' \<in> set (rx_match X mid)"
    using rx_match_Cat_elim [OF assms(1)] by blast
  obtain cs j s where m: "mid = (cs, j, s)" by (cases mid)
  have "map_of (fst st') n = map_of cs n"
    using rx_match_caps_preserved [of st' X cs j s n] st' assms(2) m by simp
  then have "map_of (fst st') n = map_of (fst mid) n"
    using m by simp
  with mid show ?thesis by blast
qed

text \<open>
  What a match of a pattern of the form \<open>^ a1 a2 (?<n> b) x\<close> captures as \<open>n\<close> is what one
  match of the group captured.
\<close>

lemma rx_exec_group:
  assumes "rx_exec (Cat Bol (Cat a1 (Cat a2 (Cat (Group n b) X)))) q = Some (k, m)"
    and "n \<notin> groupNames X"
  shows "\<exists>st. \<exists>mid\<in>set (rx_match (Group n b) st). map_of (fst m) n = map_of (fst mid) n"
proof -
  obtain u where "m \<in> set (rx_match (Cat Bol (Cat a1 (Cat a2 (Cat (Group n b) X)))) ([], k, u))"
    using rx_search_Some assms(1) unfolding rx_exec_def by blast
  then obtain st1 where "m \<in> set (rx_match (Cat a1 (Cat a2 (Cat (Group n b) X))) st1)"
    using rx_match_Cat_elim by blast
  then obtain st2 where "m \<in> set (rx_match (Cat a2 (Cat (Group n b) X)) st2)"
    using rx_match_Cat_elim by blast
  then obtain st3 where "m \<in> set (rx_match (Cat (Group n b) X) st3)"
    using rx_match_Cat_elim by blast
  then show ?thesis
    using rx_match_Group_Cat [OF _ assms(2)] by blast
qed

lemma arxivPattern_shape:
  "\<exists>a1 a2 X. arxivPattern =
      Cat Bol (Cat a1 (Cat a2
        (Cat (Group ''identifier'' (cat [rep 4 (Cls isDigit), ChrI (CHR ''.''), rep 5 (Cls isDigit)])) X)))
      \<and> ''identifier'' \<notin> groupNames X"
  by (simp add: arxivPattern_def litI_def)

lemma doiPattern_shape:
  "\<exists>a1 a2 b. doiPattern = Cat Bol (Cat a1 (Cat a2 (Cat (Group ''identifier'' b) Eps)))"
  by (simp add: doiPattern_def)

lemma arxivPattern_identifier:
  assumes "rx_exec arxivPattern q = Some (k, (cs, j, rest))"
  shows "\<exists>ident. map_of cs ''identifier'' = Some ident \<and> isArxivIdentifier ident"
proof -
  obtain a1 a2 X where shape: "arxivPattern =
      Cat Bol (Cat a1 (Cat a2
        (Cat (Group ''identifier'' (cat [rep 4 (Cls isDigit), ChrI (CHR ''.''), rep 5 (Cls isDigit)])) X)))"
    and names: "''identifier'' \<notin> groupNames X"
    using arxivPattern_shape by blast
  obtain st mid where mid: "mid \<in> set (rx_match (Group ''identifier''
        (cat [rep 4 (Cls isDigit), ChrI (CHR ''.''), rep 5 (Cls isDigit)])) st)"
      and eq: "map_of cs ''identifier'' = map_of (fst mid) ''identifier''"
    using rx_exec_group [OF assms [unfolded shape] names] by (simp only: fst_conv) blast
  obtain cs0 j0 s0 where st: "st = (cs0, j0, s0)" by (cases st)
  have "isArxivIdentifier (take 10 s0) \<and> mid = ((''identifier'', take 10 s0) # cs0, j0 + 10, drop 10 s0)"
    using mid unfolding st rx_match.simps(10) rx_match_identifier
    by (auto split: if_splits)
  then show ?thesis using eq by auto
qed

lemma doiPattern_identifier:
  assumes "rx_exec doiPattern q = Some (k, (cs, j, rest))"
  shows "\<exists>ident. map_of cs ''identifier'' = Some ident"
proof -
  obtain a1 a2 b where shape:
      "doiPattern = Cat Bol (Cat a1 (Cat a2 (Cat (Group ''identifier'' b) Eps)))"
    using doiPattern_shape by blast
  obtain st mid where mid: "mid \<in> set (rx_match (Group ''identifier'' b) st)"
      and eq: "map_of cs ''identifier'' = map_of (fst mid) ''identifier''"
    using rx_exec_group [OF assms [unfolded shape]] by (simp only: fst_conv groupNames.simps) blast
  obtain cs0 j0 s0 where st: "st = (cs0, j0, s0)" by (cases st)
  show ?thesis
    using rx_match_Group_sets [OF mid [unfolded st]] eq by simp
qed

lemma matchGroup_arxiv_Some:
  "matchGroup arxivPattern ''identifier'' q = Some ident \<Longrightarrow> isArxivIdentifier ident"
  using arxivPattern_identifier [of q]
  by (auto simp: matchGroup_def split: option.splits)

lemma matchGroup_arxiv_None:
  "matchGroup arxivPattern ''identifier'' q = None \<longleftrightarrow> rx_exec arxivPattern q = None"
  using arxivPattern_identifier [of q]
  by (auto simp: matchGroup_def split: option.splits)

lemma matchGroup_doi_None:
  "matchGroup doiPattern ''identifier'' q = None \<longleftrightarrow> rx_exec doiPattern q = None"
  using doiPattern_identifier [of q]
  by (auto simp: matchGroup_def split: option.splits)

subsection \<open>The author pattern\<close>

lemma rx_search_Bol:
  "0 < i \<Longrightarrow> rx_search (Cat Bol r) i s = None"
  by (induction s arbitrary: i) simp_all

lemma rx_match_Bol_0: "rx_match (Cat Bol r) (cs, 0, s) = rx_match r (cs, 0, s)"
  by simp

lemma rx_match_Cat_Nil:
  "\<forall>st\<in>set (rx_match a st0). rx_match b st = [] \<Longrightarrow> rx_match (Cat a b) st0 = []"
  by simp

lemma rx_match_Plus_no_space:
  "u = [] \<or> \<not> p (hd u) \<Longrightarrow> rx_match (Cat (Plus p) r) (cs, j, u) = []"
  by (cases u) auto

lemma arxivAuthorPattern_no_space:
  assumes "\<forall>c\<in>set t. \<not> isSpace c"
  shows "rx_exec arxivAuthorPattern t = None"
proof -
  let ?rest = "Cat (Plus isSpace) (cat [Group ''last'' (Plus isNonSpace), Eol])"
  have drop: "\<And>k. drop k t = [] \<or> \<not> isSpace (hd (drop k t))"
    using assms by (metis hd_in_set in_set_dropD)
  have states: "\<forall>st\<in>set (rx_match (Group ''first'' (PlusLazy isDot)) ([], 0, t)).
                  \<exists>c k. st = (c, k, drop k t)"
    by auto
  have "\<forall>st\<in>set (rx_match (Group ''first'' (PlusLazy isDot)) ([], 0, t)).
          rx_match ?rest st = []"
  proof
    fix st assume "st \<in> set (rx_match (Group ''first'' (PlusLazy isDot)) ([], 0, t))"
    then obtain c k where "st = (c, k, drop k t)" using states by blast
    then show "rx_match ?rest st = []"
      using drop [of k] by (simp only: rx_match_Plus_no_space)
  qed
  then have "rx_match (Cat (Group ''first'' (PlusLazy isDot)) ?rest) ([], 0, t) = []"
    by (rule rx_match_Cat_Nil)
  then have "rx_match arxivAuthorPattern ([], 0, t) = []"
    unfolding arxivAuthorPattern_def cat.simps rx_match_Bol_0 .
  moreover have "\<And>s. rx_search arxivAuthorPattern (Suc 0) s = None"
    unfolding arxivAuthorPattern_def cat.simps by (rule rx_search_Bol) simp
  ultimately show ?thesis
    unfolding rx_exec_def by (subst rx_search_unfold) (simp split: list.splits)
qed

lemma arxivEntry_authors:
  assumes "arxivEntry identifier entry = Inr r"
  shows "objGet r ''authors'' = Value (JArr (map arxivAuthor (getElementsByTagName entry ''author'')))"
  using assms by (auto simp: arxivEntry_def objGet_def Let_def split: list.splits)

subsection \<open>What the arXiv callback returns\<close>

lemma isDigit_cases:
  "isDigit c \<Longrightarrow> c = CHR ''0'' \<or> c = CHR ''1'' \<or> c = CHR ''2'' \<or> c = CHR ''3'' \<or> c = CHR ''4'' \<or>
     c = CHR ''5'' \<or> c = CHR ''6'' \<or> c = CHR ''7'' \<or> c = CHR ''8'' \<or> c = CHR ''9''"
  by (simp add: isDigit_def)

lemma isDigit_not_space: "isDigit c \<Longrightarrow> \<not> isSpace c"
  by (drule isDigit_cases) (elim disjE; simp add: isSpace_def)

lemma isDigit_not_sign:
  "isDigit c \<Longrightarrow> c \<noteq> CHR ''-'' \<and> c \<noteq> CHR ''+'' \<and> c \<noteq> CHR ''x'' \<and> c \<noteq> CHR ''X''"
  by (drule isDigit_cases) (elim disjE; simp)

lemma isDigit_value: "isDigit c \<Longrightarrow> int (digitValue c) = of_char c - 48"
  by (drule isDigit_cases) (elim disjE; simp add: digitValue_def)

text \<open>\<open>parseInt\<close> of two decimal digits is the number they write.\<close>

lemma parseInt_two_digits:
  assumes "isDigit a" and "isDigit b"
  shows "parseInt [a, b] = Some (10 * (of_char a - 48) + (of_char b - 48))"
  using assms isDigit_not_space [OF assms(1)] isDigit_not_sign [OF assms(1)]
    isDigit_not_sign [OF assms(2)] isDigit_value [OF assms(1)] isDigit_value [OF assms(2)]
  by (simp add: parseInt_def startsWith_def digitsValue_def Let_def)

lemma isArxivIdentifier_year:
  assumes "isArxivIdentifier identifier"
  shows "parseInt (take 2 identifier) = Some (spec_twoDigits identifier)"
proof -
  from assms have "length identifier = 10" by (simp add: isArxivIdentifier_def)
  then obtain a b c d e f g h i k where id: "identifier = [a, b, c, d, e, f, g, h, i, k]"
    using length_10 [of "identifier"] by auto
  with assms have "isDigit a" "isDigit b"
    by (simp_all add: isArxivIdentifier_def eval_nat_numeral)
  then show ?thesis
    using parseInt_two_digits [of a b] by (simp add: id spec_twoDigits_def eval_nat_numeral)
qed

lemma mapE_list_all2:
  "mapE f xs = Inr ys \<Longrightarrow> list_all2 (\<lambda>x y. f x = Inr y) xs ys"
  by (induction xs arbitrary: ys) (auto split: sum.splits)

lemma mapE_total:
  "(\<And>x. x \<in> set xs \<Longrightarrow> \<exists>y. f x = Inr y) \<Longrightarrow> \<exists>ys. mapE f xs = Inr ys"
proof (induction xs)
  case Nil
  show ?case by simp
next
  case (Cons a xs)
  obtain y where y: "f a = Inr y" using Cons.prems [of a] by auto
  obtain ys where ys: "mapE f xs = Inr ys" using Cons.IH Cons.prems by auto
  show ?case by (simp add: y ys)
qed

text \<open>The year is a small number, which the 54 bits of a safe integer hold as it is.\<close>

lemma sint_word_of_int_54:
  "- (2 ^ 53) \<le> k \<Longrightarrow> k < 2 ^ 53 \<Longrightarrow> sint (word_of_int k :: 54 word) = k"
  by (simp add: sint_sbintrunc' signed_take_bit_int_eq_self)

lemma spec_twoDigits_range: "- 528 \<le> spec_twoDigits s \<and> spec_twoDigits s \<le> 2277"
proof -
  have "0 \<le> (of_char c :: int) \<and> (of_char c :: int) < 256" for c
    by (cases c) (simp add: of_char_def)
  from this [of "s ! 0"] this [of "s ! 1"] show ?thesis
    by (simp add: spec_twoDigits_def)
qed

lemma year_safe:
  "sint (word_of_int (2000 + spec_twoDigits s) :: 54 word) = 2000 + spec_twoDigits s"
  using spec_twoDigits_range [of s] by (intro sint_word_of_int_54) simp_all

text \<open>
  \<open>parseInt\<close> of at most two characters is a small number, so the year the callback
  stores for any identifier is the sum itself.
\<close>

lemma indexOf_le: "indexOf xs c \<le> length xs"
  by (induction xs) simp_all

lemma digitValue_le: "digitValue c \<le> 16"
proof -
  have "indexOf ''ABCDEF'' c \<le> 6" using indexOf_le [of "''ABCDEF''" c] by simp
  moreover have "indexOf ''0123456789abcdef'' c \<le> 16"
    using indexOf_le [of "''0123456789abcdef''" c] by simp
  ultimately show ?thesis unfolding digitValue_def by (simp split: if_splits)
qed

lemma digitsValue_short:
  assumes "length z \<le> 2" and "radix \<le> 16"
  shows "digitsValue radix z \<le> 272"
proof -
  consider "z = []" | a where "z = [a]" | a b where "z = [a, b]"
    using assms(1) by (cases z; cases "tl z"; cases "tl (tl z)") auto
  then show ?thesis
  proof cases
    case 1 then show ?thesis by (simp add: digitsValue_def)
  next
    case 2 then show ?thesis using digitValue_le [of a] by (simp add: digitsValue_def)
  next
    case 3
    have "digitValue a * radix \<le> 16 * 16"
      using digitValue_le [of a] assms(2) by (rule mult_mono) simp_all
    then show ?thesis using 3 digitValue_le [of b] by (simp add: digitsValue_def)
  qed
qed

lemma parseInt_short:
  assumes "length str \<le> 2" and "parseInt str = Some n"
  shows "- 272 \<le> n \<and> n \<le> 272"
proof -
  define s1 where "s1 = dropWhile isSpace str"
  define s2 where "s2 = (if startsWith s1 ''+'' \<or> startsWith s1 ''-'' then drop 1 s1 else s1)"
  define hex where "hex = (startsWith s2 ''0x'' \<or> startsWith s2 ''0X'')"
  define s3 where "s3 = (if hex then drop 2 s2 else s2)"
  define z where "z = takeWhile (if hex then isHexDigit else isDigit) s3"
  define r where "r = (if hex then 16 else 10 :: nat)"
  have "length s1 \<le> 2"
    using assms(1) length_dropWhile_le [of isSpace str] unfolding s1_def by linarith
  then have "length s2 \<le> 2" unfolding s2_def by auto
  then have "length s3 \<le> 2" unfolding s3_def by auto
  then have len: "length z \<le> 2"
    using length_takeWhile_le [of "if hex then isHexDigit else isDigit" s3] unfolding z_def
    by linarith
  have "r \<le> 16" unfolding r_def by simp
  then have d: "digitsValue r z \<le> 272" using len by (intro digitsValue_short)
  have "n = int (digitsValue r z) \<or> n = - int (digitsValue r z)"
    using assms(2)
    unfolding parseInt_def Let_def s1_def [symmetric] s2_def [symmetric] hex_def [symmetric]
      s3_def [symmetric] z_def [symmetric] r_def [symmetric]
    by (auto split: if_splits)
  then show ?thesis using d by auto
qed

lemma arxivEntry_year_safe:
  assumes "parseInt (take 2 identifier) = Some n"
  shows "sint (word_of_int (2000 + n) :: 54 word) = 2000 + n"
proof -
  have "- 272 \<le> n \<and> n \<le> 272"
    using assms by (intro parseInt_short) simp_all
  then show ?thesis by (intro sint_word_of_int_54) simp_all
qed

lemma arxivEntry_Inr:
  assumes "arxivEntry identifier entry = Inr r"
  shows "\<exists>title rest. getElementsByTagName entry ''title'' = title # rest \<and>
           r = [(''type'', Value (JStr ''article'')),
                (''authors'', Value (JArr (map arxivAuthor (getElementsByTagName entry ''author'')))),
                (''year'', case parseInt (take 2 identifier) of
                             Some n \<Rightarrow> Value (JNum (word_of_int (2000 + n))) | None \<Rightarrow> NaN),
                (''title'', Value (JStr (textContent title))),
                (''journal'', Value (JStr ''arXiv'')),
                (''arxiv'', Value (JStr identifier)),
                (''pages'', Value (JStr identifier))]"
  using assms by (auto simp: arxivEntry_def Let_def split: list.splits)

lemma arxivEntry_total:
  "getElementsByTagName entry ''title'' \<noteq> [] \<Longrightarrow> \<exists>r. arxivEntry identifier entry = Inr r"
  by (auto simp: arxivEntry_def Let_def split: list.splits)

subsection \<open>C6: the record built from an arXiv entry\<close>

text \<open>
  C6. When the query matched the arXiv pattern with identifier \<open>YYMM.NNNNN\<close>, the
  identifier is four digits, a dot and five digits; the callback produces one reference
  for each \<open>entry\<close> element of the payload whenever every entry has a \<open>title\<close> element
  (it throws otherwise); and each reference produced has exactly the keys \<open>type\<close>,
  \<open>authors\<close>, \<open>year\<close>, \<open>title\<close>, \<open>journal\<close>, \<open>arxiv\<close>, \<open>pages\<close>, with type
  \<open>article\<close>, journal \<open>arXiv\<close>, arxiv and pages the identifier, title the text of the
  entry's first \<open>title\<close> element, and year the number 2000 plus the number its first two
  digits write.
\<close>

theorem C6_arxiv_normalization:
  assumes "matchGroup arxivPattern ''identifier'' query = Some identifier"
  shows "isArxivIdentifier identifier \<and>
     ((\<forall>entry\<in>set (documentElementsByTagName payload ''entry'').
          getElementsByTagName entry ''title'' \<noteq> []) \<longrightarrow>
        (\<exists>suggestions. arxivSuggestions identifier payload = Inr suggestions)) \<and>
     (arxivSuggestions identifier payload = Inr suggestions \<longrightarrow>
        list_all2
          (\<lambda>entry r.
             map fst r = [''type'', ''authors'', ''year'', ''title'', ''journal'', ''arxiv'', ''pages''] \<and>
             objGet r ''type'' = Value (JStr ''article'') \<and>
             objGet r ''journal'' = Value (JStr ''arXiv'') \<and>
             objGet r ''arxiv'' = Value (JStr identifier) \<and>
             objGet r ''pages'' = Value (JStr identifier) \<and>
             (\<exists>title rest. getElementsByTagName entry ''title'' = title # rest \<and>
                objGet r ''title'' = Value (JStr (textContent title))) \<and>
             objGet r ''year'' = Value (JNum (word_of_int (2000 + spec_twoDigits identifier))) \<and>
             sint (word_of_int (2000 + spec_twoDigits identifier) :: 54 word)
               = 2000 + spec_twoDigits identifier)
          (documentElementsByTagName payload ''entry'') suggestions)"
proof -
  have ident: "isArxivIdentifier identifier"
    using assms by (rule matchGroup_arxiv_Some)
  have year: "parseInt (take 2 identifier) = Some (spec_twoDigits identifier)"
    using ident by (rule isArxivIdentifier_year)
  have total: "(\<forall>entry\<in>set (documentElementsByTagName payload ''entry'').
          getElementsByTagName entry ''title'' \<noteq> []) \<longrightarrow>
        (\<exists>suggestions. arxivSuggestions identifier payload = Inr suggestions)"
  proof
    assume "\<forall>entry\<in>set (documentElementsByTagName payload ''entry'').
          getElementsByTagName entry ''title'' \<noteq> []"
    then have "\<And>entry. entry \<in> set (documentElementsByTagName payload ''entry'') \<Longrightarrow>
        \<exists>r. arxivEntry identifier entry = Inr r"
      using arxivEntry_total by blast
    then show "\<exists>suggestions. arxivSuggestions identifier payload = Inr suggestions"
      unfolding arxivSuggestions_def by (rule mapE_total)
  qed
  have shape: "arxivSuggestions identifier payload = Inr suggestions \<longrightarrow>
        list_all2
          (\<lambda>entry r.
             map fst r = [''type'', ''authors'', ''year'', ''title'', ''journal'', ''arxiv'', ''pages''] \<and>
             objGet r ''type'' = Value (JStr ''article'') \<and>
             objGet r ''journal'' = Value (JStr ''arXiv'') \<and>
             objGet r ''arxiv'' = Value (JStr identifier) \<and>
             objGet r ''pages'' = Value (JStr identifier) \<and>
             (\<exists>title rest. getElementsByTagName entry ''title'' = title # rest \<and>
                objGet r ''title'' = Value (JStr (textContent title))) \<and>
             objGet r ''year'' = Value (JNum (word_of_int (2000 + spec_twoDigits identifier))) \<and>
             sint (word_of_int (2000 + spec_twoDigits identifier) :: 54 word)
               = 2000 + spec_twoDigits identifier)
          (documentElementsByTagName payload ''entry'') suggestions"
  proof
    assume "arxivSuggestions identifier payload = Inr suggestions"
    then have "list_all2 (\<lambda>entry r. arxivEntry identifier entry = Inr r)
                 (documentElementsByTagName payload ''entry'') suggestions"
      unfolding arxivSuggestions_def by (rule mapE_list_all2)
    then show "list_all2
          (\<lambda>entry r.
             map fst r = [''type'', ''authors'', ''year'', ''title'', ''journal'', ''arxiv'', ''pages''] \<and>
             objGet r ''type'' = Value (JStr ''article'') \<and>
             objGet r ''journal'' = Value (JStr ''arXiv'') \<and>
             objGet r ''arxiv'' = Value (JStr identifier) \<and>
             objGet r ''pages'' = Value (JStr identifier) \<and>
             (\<exists>title rest. getElementsByTagName entry ''title'' = title # rest \<and>
                objGet r ''title'' = Value (JStr (textContent title))) \<and>
             objGet r ''year'' = Value (JNum (word_of_int (2000 + spec_twoDigits identifier))) \<and>
             sint (word_of_int (2000 + spec_twoDigits identifier) :: 54 word)
               = 2000 + spec_twoDigits identifier)
          (documentElementsByTagName payload ''entry'') suggestions"
    proof (rule list_all2_mono)
      fix entry r assume "arxivEntry identifier entry = Inr r"
      then obtain title rest where t: "getElementsByTagName entry ''title'' = title # rest"
        and r: "r = [(''type'', Value (JStr ''article'')),
                (''authors'', Value (JArr (map arxivAuthor (getElementsByTagName entry ''author'')))),
                (''year'', case parseInt (take 2 identifier) of
                             Some n \<Rightarrow> Value (JNum (word_of_int (2000 + n))) | None \<Rightarrow> NaN),
                (''title'', Value (JStr (textContent title))),
                (''journal'', Value (JStr ''arXiv'')),
                (''arxiv'', Value (JStr identifier)),
                (''pages'', Value (JStr identifier))]"
        using arxivEntry_Inr by blast
      show "map fst r = [''type'', ''authors'', ''year'', ''title'', ''journal'', ''arxiv'', ''pages''] \<and>
             objGet r ''type'' = Value (JStr ''article'') \<and>
             objGet r ''journal'' = Value (JStr ''arXiv'') \<and>
             objGet r ''arxiv'' = Value (JStr identifier) \<and>
             objGet r ''pages'' = Value (JStr identifier) \<and>
             (\<exists>title rest. getElementsByTagName entry ''title'' = title # rest \<and>
                objGet r ''title'' = Value (JStr (textContent title))) \<and>
             objGet r ''year'' = Value (JNum (word_of_int (2000 + spec_twoDigits identifier))) \<and>
             sint (word_of_int (2000 + spec_twoDigits identifier) :: 54 word)
               = 2000 + spec_twoDigits identifier"
        unfolding r by (intro conjI; (rule year_safe | simp add: objGet_def year t))
    qed
  qed
  show ?thesis using ident total shape by blast
qed

theorem C6_arxiv_normalization_witness:
  "matchGroup arxivPattern ''identifier'' ''https://arxiv.org/abs/2101.00001'' = Some ''2101.00001'' \<and>
   arxivSuggestions ''2101.00001''
     (XElement ''feed''
        [XElement ''title'' [XText ''query''],
         XElement ''entry''
           [XElement ''title'' [XText ''On Things''],
            XElement ''author'' [XElement ''name'' [XText ''Ada King'']]]])
     = Inr [[(''type'', Value (JStr ''article'')),
             (''authors'', Value (JArr [JObj [(''first'', JStr ''Ada''), (''last'', JStr ''King'')]])),
             (''year'', Value (JNum 2021)),
             (''title'', Value (JStr ''On Things'')),
             (''journal'', Value (JStr ''arXiv'')),
             (''arxiv'', Value (JStr ''2101.00001'')),
             (''pages'', Value (JStr ''2101.00001''))]] \<and>
   isArxivIdentifier ''2101.00001'' \<and>
   2000 + spec_twoDigits ''2101.00001'' = 2021"
proof -
  have h: "matchGroup arxivPattern ''identifier'' ''https://arxiv.org/abs/2101.00001''
             = Some ''2101.00001''"
    by code_simp
  have s: "arxivSuggestions ''2101.00001''
     (XElement ''feed''
        [XElement ''title'' [XText ''query''],
         XElement ''entry''
           [XElement ''title'' [XText ''On Things''],
            XElement ''author'' [XElement ''name'' [XText ''Ada King'']]]])
     = Inr [[(''type'', Value (JStr ''article'')),
             (''authors'', Value (JArr [JObj [(''first'', JStr ''Ada''), (''last'', JStr ''King'')]])),
             (''year'', Value (JNum 2021)),
             (''title'', Value (JStr ''On Things'')),
             (''journal'', Value (JStr ''arXiv'')),
             (''arxiv'', Value (JStr ''2101.00001'')),
             (''pages'', Value (JStr ''2101.00001''))]]"
    by code_simp
  have e: "documentElementsByTagName
     (XElement ''feed''
        [XElement ''title'' [XText ''query''],
         XElement ''entry''
           [XElement ''title'' [XText ''On Things''],
            XElement ''author'' [XElement ''name'' [XText ''Ada King'']]]]) ''entry''
     = [XElement ''entry''
           [XElement ''title'' [XText ''On Things''],
            XElement ''author'' [XElement ''name'' [XText ''Ada King'']]]]"
    by code_simp
  note c6 = C6_arxiv_normalization [OF h,
      of "XElement ''feed''
        [XElement ''title'' [XText ''query''],
         XElement ''entry''
           [XElement ''title'' [XText ''On Things''],
            XElement ''author'' [XElement ''name'' [XText ''Ada King'']]]]"
         "[[(''type'', Value (JStr ''article'')),
             (''authors'', Value (JArr [JObj [(''first'', JStr ''Ada''), (''last'', JStr ''King'')]])),
             (''year'', Value (JNum 2021)),
             (''title'', Value (JStr ''On Things'')),
             (''journal'', Value (JStr ''arXiv'')),
             (''arxiv'', Value (JStr ''2101.00001'')),
             (''pages'', Value (JStr ''2101.00001''))]]"]
  have i: "isArxivIdentifier ''2101.00001''"
    using c6 by (rule conjunct1)
  have y: "2000 + spec_twoDigits ''2101.00001'' = 2021"
    using c6 s unfolding e by (auto simp: objGet_def)
  show ?thesis
    using h s i y by (intro conjI)
qed

subsection \<open>C9: a null author makes formatReference throw\<close>

text \<open>
  C9. \<open>formatReference\<close> reads \<open>last\<close> and \<open>first\<close> of every element of
  \<open>reference.authors\<close> without a null check: if it returns, \<open>authors\<close> is an array without
  \<open>null\<close>, and on an array that holds \<open>null\<close> it throws a \<open>TypeError\<close>. The arXiv callback
  can build such an array: an \<open>author\<close> element whose trimmed text does not match the
  author pattern (a text without white space, such as a single name, never matches)
  becomes \<open>null\<close> in the \<open>authors\<close> of the reference, and \<open>formatReference\<close> throws on
  that reference.
\<close>

theorem C9_null_author:
  "((\<exists>f. formatReference reference link = Inr f) \<longrightarrow>
      (\<exists>authors. objGet reference ''authors'' = Value (JArr authors) \<and> JNull \<notin> set authors)) \<and>
   (objGet reference ''authors'' = Value (JArr authors) \<and> JNull \<in> set authors \<longrightarrow>
      formatReference reference link = Inl TypeError) \<and>
   (arxivEntry identifier entry = Inr r \<and>
    author \<in> set (getElementsByTagName entry ''author'') \<and>
    rx_exec arxivAuthorPattern (trim (textContent author)) = None \<longrightarrow>
      (\<exists>authors. objGet r ''authors'' = Value (JArr authors) \<and> JNull \<in> set authors) \<and>
      formatReference r link = Inl TypeError) \<and>
   ((\<forall>c\<in>set (trim (textContent author)). \<not> isSpace c) \<longrightarrow>
      rx_exec arxivAuthorPattern (trim (textContent author)) = None)"
proof (intro conjI impI)
  assume "\<exists>f. formatReference reference link = Inr f"
  then obtain f where f: "formatReference reference link = Inr f" ..
  then obtain authors where a: "objGet reference ''authors'' = Value (JArr authors)"
    using formatReference_not_array [of reference link] by auto
  have "JNull \<notin> set authors"
    using formatReference_Inl [OF a, of link] f by auto
  with a show "\<exists>authors. objGet reference ''authors'' = Value (JArr authors) \<and> JNull \<notin> set authors"
    by blast
next
  assume "objGet reference ''authors'' = Value (JArr authors) \<and> JNull \<in> set authors"
  then show "formatReference reference link = Inl TypeError"
    using formatReference_Inl by blast
next
  assume h: "arxivEntry identifier entry = Inr r \<and>
    author \<in> set (getElementsByTagName entry ''author'') \<and>
    rx_exec arxivAuthorPattern (trim (textContent author)) = None"
  then have "arxivAuthor author = JNull"
    by (simp add: arxivAuthor_def)
  then have null: "JNull \<in> set (map arxivAuthor (getElementsByTagName entry ''author''))"
    using h by force
  have a: "objGet r ''authors'' = Value (JArr (map arxivAuthor (getElementsByTagName entry ''author'')))"
    using h arxivEntry_authors by blast
  show "\<exists>authors. objGet r ''authors'' = Value (JArr authors) \<and> JNull \<in> set authors"
    using a null by blast
  show "formatReference r link = Inl TypeError"
    using formatReference_Inl [OF a] null by blast
next
  assume "\<forall>c\<in>set (trim (textContent author)). \<not> isSpace c"
  then show "rx_exec arxivAuthorPattern (trim (textContent author)) = None"
    by (rule arxivAuthorPattern_no_space)
qed

theorem C9_null_author_witness:
  "arxivEntry ''2101.00001''
     (XElement ''entry''
        [XElement ''title'' [XText ''On Things''],
         XElement ''author'' [XElement ''name'' [XText '' Plato '']]])
     = Inr [(''type'', Value (JStr ''article'')),
            (''authors'', Value (JArr [JNull])),
            (''year'', Value (JNum 2021)),
            (''title'', Value (JStr ''On Things'')),
            (''journal'', Value (JStr ''arXiv'')),
            (''arxiv'', Value (JStr ''2101.00001'')),
            (''pages'', Value (JStr ''2101.00001''))] \<and>
   rx_exec arxivAuthorPattern (trim (textContent (XElement ''author'' [XElement ''name'' [XText '' Plato '']]))) = None \<and>
   formatReference
     [(''type'', Value (JStr ''article'')),
      (''authors'', Value (JArr [JNull])),
      (''year'', Value (JNum 2021)),
      (''title'', Value (JStr ''On Things'')),
      (''journal'', Value (JStr ''arXiv'')),
      (''arxiv'', Value (JStr ''2101.00001'')),
      (''pages'', Value (JStr ''2101.00001''))] True = Inl TypeError"
proof -
  let ?author = "XElement ''author'' [XElement ''name'' [XText '' Plato '']]"
  let ?entry = "XElement ''entry'' [XElement ''title'' [XText ''On Things''], ?author]"
  let ?r = "[(''type'', Value (JStr ''article'')),
            (''authors'', Value (JArr [JNull])),
            (''year'', Value (JNum 2021)),
            (''title'', Value (JStr ''On Things'')),
            (''journal'', Value (JStr ''arXiv'')),
            (''arxiv'', Value (JStr ''2101.00001'')),
            (''pages'', Value (JStr ''2101.00001''))]"
  have e: "arxivEntry ''2101.00001'' ?entry = Inr ?r"
    by code_simp
  have m: "?author \<in> set (getElementsByTagName ?entry ''author'')"
    by code_simp
  have w: "\<forall>c\<in>set (trim (textContent ?author)). \<not> isSpace c"
    by code_simp
  note c9 = C9_null_author [of ?r True _ "''2101.00001''" ?entry ?r ?author]
  have n: "rx_exec arxivAuthorPattern (trim (textContent ?author)) = None"
    using c9 w by blast
  have t: "formatReference ?r True = Inl TypeError"
    using c9 e m n by blast
  show ?thesis
    using e n t by (intro conjI)
qed

subsection \<open>C2: the last-query cache\<close>

text \<open>
  C2. \<open>getSuggestions(query)\<close> returns the stored \<open>lastSuggestions\<close>, changes nothing and
  issues no fetch when the query is not empty and equals \<open>lastQuery\<close>; in every other
  case it returns the empty list. Whatever the query, the only field it can change is
  \<open>emptyStateText\<close>. A callback that completes leaves the modal that
  \<open>dispatchSuggestions\<close> builds, which is where \<open>lastQuery\<close> and \<open>lastSuggestions\<close> are set.
\<close>

theorem C2_cache:
  "(query \<noteq> [] \<and> lastQuery this = Some query \<longrightarrow>
      getSuggestions this query = (lastSuggestions this, this, None)) \<and>
   (\<not> (query \<noteq> [] \<and> lastQuery this = Some query) \<longrightarrow>
      fst (getSuggestions this query) = []) \<and>
   (\<exists>t. fst (snd (getSuggestions this query)) = this\<lparr>emptyStateText := t\<rparr>) \<and>
   (arxivThen this query identifier xmlPayload = Inr this' \<longrightarrow>
      (\<exists>suggestions. this' = dispatchSuggestions this query suggestions)) \<and>
   (doiThen this query identifier jsonPayload = Inr this'' \<longrightarrow>
      (\<exists>suggestions. this'' = dispatchSuggestions this query suggestions)) \<and>
   lastQuery (dispatchSuggestions this query suggestions) = Some query \<and>
   lastSuggestions (dispatchSuggestions this query suggestions) = suggestions"
proof (intro conjI impI)
  show "\<exists>t. fst (snd (getSuggestions this query)) = this\<lparr>emptyStateText := t\<rparr>"
  proof (cases "query \<noteq> [] \<and> lastQuery this = Some query")
    case True
    then have "fst (snd (getSuggestions this query)) = this\<lparr>emptyStateText := emptyStateText this\<rparr>"
      by (simp add: getSuggestions_def)
    then show ?thesis ..
  next
    case False
    then show ?thesis
      by (auto simp: getSuggestions_def Let_def split: option.splits)
  qed
qed (auto simp: getSuggestions_def Let_def arxivThen_def doiThen_def dispatchSuggestions_def
      split: option.splits sum.splits)

theorem C2_cache_witness:
  "getSuggestions
     \<lparr>lastQuery = Some ''2101.00001'', lastSuggestions = [[(''title'', Value (JStr ''T''))]],
      emptyStateText = ''No results found'', inputEvents = 1\<rparr> ''2101.00001''
   = ([[(''title'', Value (JStr ''T''))]],
      \<lparr>lastQuery = Some ''2101.00001'', lastSuggestions = [[(''title'', Value (JStr ''T''))]],
       emptyStateText = ''No results found'', inputEvents = 1\<rparr>, None) \<and>
   fst (getSuggestions
     \<lparr>lastQuery = Some ''2101.00001'', lastSuggestions = [[(''title'', Value (JStr ''T''))]],
      emptyStateText = ''No results found'', inputEvents = 1\<rparr> ''2101.00002'') = []"
proof -
  let ?m = "\<lparr>lastQuery = Some ''2101.00001'', lastSuggestions = [[(''title'', Value (JStr ''T''))]],
      emptyStateText = ''No results found'', inputEvents = 1\<rparr>"
  have hit: "''2101.00001'' \<noteq> [] \<and> lastQuery ?m = Some ''2101.00001''"
    by simp
  have miss: "\<not> (''2101.00002'' \<noteq> [] \<and> lastQuery ?m = Some ''2101.00002'')"
    by simp
  have "getSuggestions ?m ''2101.00001'' = (lastSuggestions ?m, ?m, None)"
    using C2_cache [of "''2101.00001''" ?m] hit by blast
  moreover have "fst (getSuggestions ?m ''2101.00002'') = []"
    using C2_cache [of "''2101.00002''" ?m] miss by blast
  ultimately show ?thesis by simp
qed

subsection \<open>C3: classification of the query\<close>

text \<open>
  C3, as the code has it. On a call that is not answered from the cache (the query is
  empty or differs from \<open>lastQuery\<close>): a query matching the arXiv pattern issues a fetch to
  \<open>export.arxiv.org\<close> with the captured identifier; a query that does not match it and
  matches the DOI pattern issues a fetch to \<open>data.crossref.org\<close> with the captured
  identifier; a query matching neither issues no fetch, sets the empty-state text to
  \<open>Pattern not recognised\<close> and leaves the cache as it was. Whatever the state, a
  fetch that is issued goes to one of these two endpoints.
\<close>

theorem C3_classification:
  assumes "\<not> (query \<noteq> [] \<and> lastQuery this = Some query)"
  shows
  "(rx_exec arxivPattern query \<noteq> None \<longrightarrow>
      (\<exists>identifier. matchGroup arxivPattern ''identifier'' query = Some identifier \<and>
         getSuggestions this query =
           ([], this\<lparr>emptyStateText := ''Fetching results...''\<rparr>,
            Some \<lparr>url = ''https://export.arxiv.org/api/query?id_list='' @ identifier,
                  headers = [],
                  callback = ArxivThen query identifier\<rparr>))) \<and>
   (rx_exec arxivPattern query = None \<and> rx_exec doiPattern query \<noteq> None \<longrightarrow>
      (\<exists>identifier. matchGroup doiPattern ''identifier'' query = Some identifier \<and>
         getSuggestions this query =
           ([], this\<lparr>emptyStateText := ''Fetching results...''\<rparr>,
            Some \<lparr>url = ''https://data.crossref.org/'' @ identifier,
                  headers = [(''Accept'', ''application/json'')],
                  callback = DoiThen query identifier\<rparr>))) \<and>
   (rx_exec arxivPattern query = None \<and> rx_exec doiPattern query = None \<longrightarrow>
      getSuggestions this query =
        ([], this\<lparr>emptyStateText := ''Pattern not recognised''\<rparr>, None)) \<and>
   (\<forall>f. snd (snd (getSuggestions this query)) = Some f \<longrightarrow>
      (\<exists>identifier. url f = ''https://export.arxiv.org/api/query?id_list='' @ identifier \<or>
                    url f = ''https://data.crossref.org/'' @ identifier))"
proof (intro conjI impI)
  assume "rx_exec arxivPattern query \<noteq> None"
  then obtain ident where i: "matchGroup arxivPattern ''identifier'' query = Some ident"
    using matchGroup_arxiv_None [of query] by auto
  then have "getSuggestions this query =
           ([], this\<lparr>emptyStateText := ''Fetching results...''\<rparr>,
            Some \<lparr>url = ''https://export.arxiv.org/api/query?id_list='' @ ident,
                  headers = [],
                  callback = ArxivThen query ident\<rparr>)"
    using assms by (simp add: getSuggestions_def Let_def)
  with i show "\<exists>identifier. matchGroup arxivPattern ''identifier'' query = Some identifier \<and>
         getSuggestions this query =
           ([], this\<lparr>emptyStateText := ''Fetching results...''\<rparr>,
            Some \<lparr>url = ''https://export.arxiv.org/api/query?id_list='' @ identifier,
                  headers = [],
                  callback = ArxivThen query identifier\<rparr>)"
    by blast
next
  assume h: "rx_exec arxivPattern query = None \<and> rx_exec doiPattern query \<noteq> None"
  then have a: "matchGroup arxivPattern ''identifier'' query = None"
    using matchGroup_arxiv_None by blast
  obtain ident where i: "matchGroup doiPattern ''identifier'' query = Some ident"
    using h matchGroup_doi_None [of query] by auto
  then have "getSuggestions this query =
           ([], this\<lparr>emptyStateText := ''Fetching results...''\<rparr>,
            Some \<lparr>url = ''https://data.crossref.org/'' @ ident,
                  headers = [(''Accept'', ''application/json'')],
                  callback = DoiThen query ident\<rparr>)"
    using assms a by (simp add: getSuggestions_def Let_def)
  with i show "\<exists>identifier. matchGroup doiPattern ''identifier'' query = Some identifier \<and>
         getSuggestions this query =
           ([], this\<lparr>emptyStateText := ''Fetching results...''\<rparr>,
            Some \<lparr>url = ''https://data.crossref.org/'' @ identifier,
                  headers = [(''Accept'', ''application/json'')],
                  callback = DoiThen query identifier\<rparr>)"
    by blast
next
  assume h: "rx_exec arxivPattern query = None \<and> rx_exec doiPattern query = None"
  then have "matchGroup arxivPattern ''identifier'' query = None"
    and "matchGroup doiPattern ''identifier'' query = None"
    using matchGroup_arxiv_None matchGroup_doi_None by blast+
  then show "getSuggestions this query =
        ([], this\<lparr>emptyStateText := ''Pattern not recognised''\<rparr>, None)"
    using assms by (auto simp: getSuggestions_def Let_def)
next
  show "\<forall>f. snd (snd (getSuggestions this query)) = Some f \<longrightarrow>
      (\<exists>identifier. url f = ''https://export.arxiv.org/api/query?id_list='' @ identifier \<or>
                    url f = ''https://data.crossref.org/'' @ identifier)"
    by (auto simp: getSuggestions_def Let_def split: option.splits if_splits)
qed

theorem C3_classification_witness:
  "getSuggestions (newModal []) ''arXiv:2101.00001'' =
     ([], (newModal [])\<lparr>emptyStateText := ''Fetching results...''\<rparr>,
      Some \<lparr>url = ''https://export.arxiv.org/api/query?id_list=2101.00001'',
            headers = [],
            callback = ArxivThen ''arXiv:2101.00001'' ''2101.00001''\<rparr>) \<and>
   getSuggestions (newModal []) ''doi:10.1000/xyz'' =
     ([], (newModal [])\<lparr>emptyStateText := ''Fetching results...''\<rparr>,
      Some \<lparr>url = ''https://data.crossref.org/10.1000/xyz'',
            headers = [(''Accept'', ''application/json'')],
            callback = DoiThen ''doi:10.1000/xyz'' ''10.1000/xyz''\<rparr>) \<and>
   getSuggestions (newModal []) ''Plato'' =
     ([], (newModal [])\<lparr>emptyStateText := ''Pattern not recognised''\<rparr>, None)"
proof -
  have miss: "\<And>q. \<not> (q \<noteq> [] \<and> lastQuery (newModal []) = Some q)"
    by (simp add: newModal_def)
  have a1: "rx_exec arxivPattern ''arXiv:2101.00001'' \<noteq> None"
    by code_simp
  have a2: "matchGroup arxivPattern ''identifier'' ''arXiv:2101.00001'' = Some ''2101.00001''"
    by code_simp
  have d1: "rx_exec arxivPattern ''doi:10.1000/xyz'' = None \<and>
            rx_exec doiPattern ''doi:10.1000/xyz'' \<noteq> None"
    by code_simp
  have d2: "matchGroup doiPattern ''identifier'' ''doi:10.1000/xyz'' = Some ''10.1000/xyz''"
    by code_simp
  have n1: "rx_exec arxivPattern ''Plato'' = None \<and> rx_exec doiPattern ''Plato'' = None"
    by code_simp
  have "getSuggestions (newModal []) ''arXiv:2101.00001'' =
     ([], (newModal [])\<lparr>emptyStateText := ''Fetching results...''\<rparr>,
      Some \<lparr>url = ''https://export.arxiv.org/api/query?id_list=2101.00001'',
            headers = [],
            callback = ArxivThen ''arXiv:2101.00001'' ''2101.00001''\<rparr>)"
    using C3_classification [OF miss, of "''arXiv:2101.00001''"] a1 a2 by auto
  moreover have "getSuggestions (newModal []) ''doi:10.1000/xyz'' =
     ([], (newModal [])\<lparr>emptyStateText := ''Fetching results...''\<rparr>,
      Some \<lparr>url = ''https://data.crossref.org/10.1000/xyz'',
            headers = [(''Accept'', ''application/json'')],
            callback = DoiThen ''doi:10.1000/xyz'' ''10.1000/xyz''\<rparr>)"
    using C3_classification [OF miss, of "''doi:10.1000/xyz''"] d1 d2 by auto
  moreover have "getSuggestions (newModal []) ''Plato'' =
     ([], (newModal [])\<lparr>emptyStateText := ''Pattern not recognised''\<rparr>, None)"
    using C3_classification [OF miss, of "''Plato''"] n1 by blast
  ultimately show ?thesis by (intro conjI)
qed

text \<open>
  The claim as stated fails on a cache hit: after the arXiv response for \<open>2101.00001\<close>
  has resolved, the same query still matches the arXiv pattern and issues no fetch.
\<close>

theorem C3_classification_counterexample:
  "matchGroup arxivPattern ''identifier'' ''2101.00001'' = Some ''2101.00001'' \<and>
   getSuggestions
     (modal (run (newSession []) [Call ''2101.00001'', ResolveXml 0 (XElement ''feed'' [])]))
     ''2101.00001''
   = ([], \<lparr>lastQuery = Some ''2101.00001'', lastSuggestions = [],
            emptyStateText = ''No results found'', inputEvents = 1\<rparr>, None)"
  by code_simp

subsection \<open>The fence and its body\<close>

lemma startsWith_append: "startsWith (p @ t) p"
  by (simp add: startsWith_def)

lemma endsWith_append: "endsWith (t @ p) p"
  by (simp add: endsWith_def)

lemma dropFence_body:
  assumes "\<forall>c\<in>set w1. isSpace c" and "\<forall>c\<in>set w2. isSpace c"
    and "body = [] \<or> (\<not> isSpace (hd body) \<and> \<not> isSpace (last body))"
  shows "dropFence (''^^^'' @ w1 @ body @ w2 @ ''^^^'') = body"
proof (cases "body = []")
  case True
  have "dropWhile isSpace (w1 @ w2 @ ''^^^'') = ''^^^''"
    using assms(1,2) by simp
  then have lead: "replaceEmpty leadingFence (''^^^'' @ w1 @ body @ w2 @ ''^^^'') = ''^^^''"
    unfolding replaceEmpty_leadingFence by (simp add: True)
  have "replaceEmpty trailingFence ([] @ [] @ ''^^^'') = []"
    by (rule replaceEmpty_trailingFence) simp_all
  then show ?thesis
    unfolding dropFence_def lead by (simp add: True)
next
  case False
  then obtain x xs where b: "body = x # xs" by (cases body) auto
  with assms(3) have x: "\<not> isSpace x" by simp
  have "dropWhile isSpace (w1 @ body @ w2 @ ''^^^'') = body @ w2 @ ''^^^''"
    using assms(1) x by (simp add: b)
  then have lead: "replaceEmpty leadingFence (''^^^'' @ w1 @ body @ w2 @ ''^^^'') = body @ w2 @ ''^^^''"
    unfolding replaceEmpty_leadingFence .
  have "replaceEmpty trailingFence (body @ w2 @ ''^^^'') = body"
    using assms(2,3) False by (intro replaceEmpty_trailingFence) auto
  then show ?thesis
    unfolding dropFence_def lead .
qed

subsection \<open>C4: the post-processor touches caret fences only\<close>

text \<open>
  C4. Without section information, and on a section whose markdown text (lines
  \<open>lineStart\<close> to \<open>lineEnd\<close> joined by newlines) does not both start and end with
  \<open>^^^\<close>, the post-processor returns the element as it was. On a text that does, the
  children of the element become one \<open>pre\<close> element holding one \<open>code\<close> element whose
  text is what the two \<open>replace\<close> calls leave; for a text of the form fence, white space,
  body, white space, fence, where the body neither starts nor ends with white space, that
  is the body.
\<close>

theorem C4_postprocessor:
  "postprocessor el None = el \<and>
   (\<not> (startsWith (sectionText info) ''^^^'' \<and> endsWith (sectionText info) ''^^^'') \<longrightarrow>
      postprocessor el (Some info) = el) \<and>
   (startsWith (sectionText info) ''^^^'' \<and> endsWith (sectionText info) ''^^^'' \<longrightarrow>
      postprocessor el (Some info) =
        el\<lparr>childNodes :=
             [Element ''pre'' [Element ''code'' [InnerText (dropFence (sectionText info))]]]\<rparr>) \<and>
   (sectionText info = ''^^^'' @ w1 @ body @ w2 @ ''^^^'' \<and>
    (\<forall>c\<in>set w1. isSpace c) \<and> (\<forall>c\<in>set w2. isSpace c) \<and>
    (body = [] \<or> (\<not> isSpace (hd body) \<and> \<not> isSpace (last body))) \<longrightarrow>
      postprocessor el (Some info) =
        el\<lparr>childNodes := [Element ''pre'' [Element ''code'' [InnerText body]]]\<rparr>)"
proof (intro conjI impI)
  show "postprocessor el None = el"
    by (simp add: postprocessor_def)
next
  assume "\<not> (startsWith (sectionText info) ''^^^'' \<and> endsWith (sectionText info) ''^^^'')"
  then show "postprocessor el (Some info) = el"
    by (auto simp: postprocessor_def Let_def)
next
  assume "startsWith (sectionText info) ''^^^'' \<and> endsWith (sectionText info) ''^^^''"
  then show "postprocessor el (Some info) =
        el\<lparr>childNodes :=
             [Element ''pre'' [Element ''code'' [InnerText (dropFence (sectionText info))]]]\<rparr>"
    by (simp add: postprocessor_def Let_def)
next
  assume h: "sectionText info = ''^^^'' @ w1 @ body @ w2 @ ''^^^'' \<and>
    (\<forall>c\<in>set w1. isSpace c) \<and> (\<forall>c\<in>set w2. isSpace c) \<and>
    (body = [] \<or> (\<not> isSpace (hd body) \<and> \<not> isSpace (last body)))"
  then have t: "sectionText info = ''^^^'' @ w1 @ body @ w2 @ ''^^^''" by simp
  have s: "startsWith (sectionText info) ''^^^''"
    unfolding t by (rule startsWith_append)
  have e: "endsWith (sectionText info) ''^^^''"
    using endsWith_append [of "''^^^'' @ w1 @ body @ w2" "''^^^''"] by (simp add: t)
  have d: "dropFence (sectionText info) = body"
    unfolding t using h by (intro dropFence_body) auto
  show "postprocessor el (Some info) =
        el\<lparr>childNodes := [Element ''pre'' [Element ''code'' [InnerText body]]]\<rparr>"
    using s e d by (simp add: postprocessor_def Let_def)
qed

theorem C4_postprocessor_witness:
  "postprocessor \<lparr>tagName = ''div'', childNodes = [InnerText ''old'']\<rparr>
     (Some \<lparr>text' = ''intro'' @ [CR, LF] @ ''^^^'' @ [LF] @ ''@a{b}'' @ [LF] @ ''^^^'' @ [LF] @ ''more'',
             lineStart = 0, lineEnd = 0\<rparr>)
     = \<lparr>tagName = ''div'', childNodes = [InnerText ''old'']\<rparr> \<and>
   postprocessor \<lparr>tagName = ''div'', childNodes = [InnerText ''old'']\<rparr>
     (Some \<lparr>text' = ''intro'' @ [CR, LF] @ ''^^^'' @ [LF] @ ''@a{b}'' @ [LF] @ ''^^^'' @ [LF] @ ''more'',
             lineStart = 1, lineEnd = 3\<rparr>)
     = \<lparr>tagName = ''div'',
        childNodes = [Element ''pre'' [Element ''code'' [InnerText ''@a{b}'']]]\<rparr>"
proof -
  let ?el = "\<lparr>tagName = ''div'', childNodes = [InnerText ''old'']\<rparr>"
  let ?note = "''intro'' @ [CR, LF] @ ''^^^'' @ [LF] @ ''@a{b}'' @ [LF] @ ''^^^'' @ [LF] @ ''more''"
  let ?i0 = "\<lparr>text' = ?note, lineStart = 0, lineEnd = 0\<rparr>"
  let ?i1 = "\<lparr>text' = ?note, lineStart = 1, lineEnd = 3\<rparr>"
  have n: "\<not> (startsWith (sectionText ?i0) ''^^^'' \<and> endsWith (sectionText ?i0) ''^^^'')"
    by code_simp
  have f: "sectionText ?i1 = ''^^^'' @ [LF] @ ''@a{b}'' @ [LF] @ ''^^^'' \<and>
      (\<forall>c\<in>set [LF]. isSpace c) \<and> (\<forall>c\<in>set [LF]. isSpace c) \<and>
      (''@a{b}'' = [] \<or> (\<not> isSpace (hd ''@a{b}'') \<and> \<not> isSpace (last ''@a{b}'')))"
    by code_simp
  have "postprocessor ?el (Some ?i0) = ?el"
    using C4_postprocessor [of ?el ?i0] n by blast
  moreover have "postprocessor ?el (Some ?i1) =
      ?el\<lparr>childNodes := [Element ''pre'' [Element ''code'' [InnerText ''@a{b}'']]]\<rparr>"
    using C4_postprocessor [of ?el ?i1 "[LF]" "''@a{b}''" "[LF]"] f by blast
  ultimately show ?thesis by simp
qed

subsection \<open>What the DOI callback returns\<close>

lemma lookup_other:
  "k \<noteq> ''article-journal'' \<Longrightarrow> k \<noteq> ''monograph'' \<Longrightarrow> k \<noteq> ''report'' \<Longrightarrow>
   objGet DOI_TYPE_LOOKUP k = Value JUndefined \<or> objGet DOI_TYPE_LOOKUP k = Value (JObj []) \<or>
   (\<exists>n. objGet DOI_TYPE_LOOKUP k = Function n)"
  by (simp add: objGet_def DOI_TYPE_LOOKUP_def objectPrototype_def)

lemma lookup_known:
  "objGet DOI_TYPE_LOOKUP ''article-journal'' = Value (JStr ''article'')"
  "objGet DOI_TYPE_LOOKUP ''monograph'' = Value (JStr ''book'')"
  "objGet DOI_TYPE_LOOKUP ''report'' = Value (JStr ''techreport'')"
  by (simp_all add: objGet_def DOI_TYPE_LOOKUP_def)

lemma lookup_other_loose:
  assumes "k \<noteq> ''article-journal''" "k \<noteq> ''monograph''" "k \<noteq> ''report''"
  shows "looseEqualsString (objGet DOI_TYPE_LOOKUP k) ''article'' = Inr False \<and>
         looseEqualsString (objGet DOI_TYPE_LOOKUP k) ''book'' = Inr False \<and>
         looseEqualsString (objGet DOI_TYPE_LOOKUP k) ''techreport'' = Inr False \<and>
         (\<forall>s. objGet DOI_TYPE_LOOKUP k \<noteq> Value (JStr s))"
  using lookup_other [OF assms] by auto

text \<open>The looked-up type always converts to a string.\<close>

lemma lookup_toString: "\<exists>t. toStringP (objGet DOI_TYPE_LOOKUP k) = Inr t"
proof (cases "k = ''article-journal'' \<or> k = ''monograph'' \<or> k = ''report''")
  case True
  then show ?thesis by (auto simp: lookup_known)
next
  case False
  then show ?thesis using lookup_other [of k] by auto
qed

text \<open>The three comparisons of the looked-up type never throw, and tell the three keys.\<close>

lemma lookup_loose:
  "looseEqualsString (objGet DOI_TYPE_LOOKUP k) ''article'' = Inr (k = ''article-journal'')"
  "looseEqualsString (objGet DOI_TYPE_LOOKUP k) ''book'' = Inr (k = ''monograph'')"
  "looseEqualsString (objGet DOI_TYPE_LOOKUP k) ''techreport'' = Inr (k = ''report'')"
proof -
  consider "k = ''article-journal''" | "k = ''monograph''" | "k = ''report''"
    | "k \<noteq> ''article-journal''" "k \<noteq> ''monograph''" "k \<noteq> ''report''"
    by blast
  then have "looseEqualsString (objGet DOI_TYPE_LOOKUP k) ''article'' = Inr (k = ''article-journal'') \<and>
    looseEqualsString (objGet DOI_TYPE_LOOKUP k) ''book'' = Inr (k = ''monograph'') \<and>
    looseEqualsString (objGet DOI_TYPE_LOOKUP k) ''techreport'' = Inr (k = ''report'')"
  proof cases
    case 1 then show ?thesis by (simp add: lookup_known)
  next
    case 2 then show ?thesis by (simp add: lookup_known)
  next
    case 3 then show ?thesis by (simp add: lookup_known)
  next
    case 4 then show ?thesis using lookup_other_loose [of k] by simp
  qed
  then show
    "looseEqualsString (objGet DOI_TYPE_LOOKUP k) ''article'' = Inr (k = ''article-journal'')"
    "looseEqualsString (objGet DOI_TYPE_LOOKUP k) ''book'' = Inr (k = ''monograph'')"
    "looseEqualsString (objGet DOI_TYPE_LOOKUP k) ''techreport'' = Inr (k = ''report'')"
    by simp_all
qed

lemma doiSuggestion_object:
  assumes "doiSuggestion identifier payload = Inr r"
  shows "\<exists>ps. payload = JObj ps"
  using assms by (cases payload) (simp_all add: doiSuggestion_def)

text \<open>The five properties every suggestion starts with.\<close>

lemma doiSuggestion_Inr:
  assumes "doiSuggestion identifier (JObj ps) = Inr r"
  obtains authors key dp issued0 year fields where
     "toString (ownGet ps ''type'') = Inr key"
     "getProp (ownGet ps ''issued'') ''date-parts'' = Inr dp"
     "getIndex dp 0 = Inr issued0"
     "getIndex issued0 0 = Inr year"
     "r = [(''title'', Value (ownGet ps ''title'')),
          (''authors'', Value (JArr authors)),
          (''type'', objGet DOI_TYPE_LOOKUP key),
          (''year'', Value year),
          (''doi'', Value (JStr identifier))] @ fields"
     "if key = ''article-journal''
      then \<exists>issue. fields = [(''journal'', Value (ownGet ps ''container-title'')),
                     (''volume'', Value (ownGet ps ''volume'')),
                     (''pages'', Value (ownGet ps ''page'')),
                     (''number'', Value issue)] \<and>
             getProp (ownGet ps ''journal-issue'') ''issue'' = Inr issue
      else if key = ''monograph''
      then fields = [(''publisher'', Value (ownGet ps ''publisher''))]
      else if key = ''report''
      then fields = [(''institution'', Value (ownGet ps ''institution''))]
      else fields = []"
proof -
  from assms obtain payloadAuthors where 1: "iterate (ownGet ps ''author'') = Inr payloadAuthors"
    by (cases "iterate (ownGet ps ''author'')") (simp_all add: doiSuggestion_def)
  from assms 1 obtain authors where 2: "mapE doiAuthor payloadAuthors = Inr authors"
    by (cases "mapE doiAuthor payloadAuthors") (simp_all add: doiSuggestion_def)
  from assms 1 2 obtain key where k: "toString (ownGet ps ''type'') = Inr key"
    by (cases "toString (ownGet ps ''type'')") (simp_all add: doiSuggestion_def)
  from assms 1 2 k obtain dp where 3: "getProp (ownGet ps ''issued'') ''date-parts'' = Inr dp"
    by (cases "getProp (ownGet ps ''issued'') ''date-parts''") (simp_all add: doiSuggestion_def)
  from assms 1 2 k 3 obtain issued0 where 4: "getIndex dp 0 = Inr issued0"
    by (cases "getIndex dp 0") (simp_all add: doiSuggestion_def)
  from assms 1 2 k 3 4 obtain year where 5: "getIndex issued0 0 = Inr year"
    by (cases "getIndex issued0 0") (simp_all add: doiSuggestion_def)
  let ?base = "[(''title'', Value (ownGet ps ''title'')), (''authors'', Value (JArr authors)),
                (''type'', objGet DOI_TYPE_LOOKUP key), (''year'', Value year),
                (''doi'', Value (JStr identifier))]"
  show ?thesis
  proof (cases "key = ''article-journal''")
    case True
    with assms 1 2 k 3 4 5 obtain issue where
        6: "getProp (ownGet ps ''journal-issue'') ''issue'' = Inr issue"
      by (cases "getProp (ownGet ps ''journal-issue'') ''issue''")
         (simp_all add: doiSuggestion_def Let_def lookup_loose)
    have r: "r = ?base @ [(''journal'', Value (ownGet ps ''container-title'')),
                     (''volume'', Value (ownGet ps ''volume'')),
                     (''pages'', Value (ownGet ps ''page'')),
                     (''number'', Value issue)]"
      using assms 1 2 k 3 4 5 6 True by (simp add: doiSuggestion_def Let_def lookup_loose)
    show ?thesis
      by (rule that [OF k 3 4 5 r]) (simp add: True 6)
  next
    case nart: False
    show ?thesis
    proof (cases "key = ''monograph''")
      case True
      have r: "r = ?base @ [(''publisher'', Value (ownGet ps ''publisher''))]"
        using assms 1 2 k 3 4 5 nart True by (simp add: doiSuggestion_def Let_def lookup_loose)
      show ?thesis
        by (rule that [OF k 3 4 5 r]) (simp add: nart True)
    next
      case nbook: False
      show ?thesis
      proof (cases "key = ''report''")
        case True
        have r: "r = ?base @ [(''institution'', Value (ownGet ps ''institution''))]"
          using assms 1 2 k 3 4 5 nart nbook True
          by (simp add: doiSuggestion_def Let_def lookup_loose)
        show ?thesis
          by (rule that [OF k 3 4 5 r]) (simp add: nart nbook True)
      next
        case False
        obtain message where m: "toStringP (objGet DOI_TYPE_LOOKUP key) = Inr message"
          using lookup_toString by blast
        have r: "r = ?base @ []"
          using assms 1 2 k 3 4 5 nart nbook False m
          by (simp add: doiSuggestion_def Let_def lookup_loose)
        show ?thesis
          by (rule that [OF k 3 4 5 r]) (simp add: nart nbook False)
      qed
    qed
  qed
qed

lemma doiSuggestion_shape:
  assumes "doiSuggestion identifier payload = Inr r"
  shows "\<exists>ps key. payload = JObj ps \<and>
     toString (ownGet ps ''type'') = Inr key \<and>
     take 5 (map fst r) = [''title'', ''authors'', ''type'', ''year'', ''doi''] \<and>
     objGet r ''title'' = Value (ownGet ps ''title'') \<and>
     (\<exists>authors. objGet r ''authors'' = Value (JArr authors)) \<and>
     objGet r ''doi'' = Value (JStr identifier) \<and>
     (\<exists>dateParts first year. getProp (ownGet ps ''issued'') ''date-parts'' = Inr dateParts \<and>
        getIndex dateParts 0 = Inr first \<and> getIndex first 0 = Inr year \<and>
        objGet r ''year'' = Value year) \<and>
     objGet r ''type'' = objGet DOI_TYPE_LOOKUP key \<and>
     (key = ''article-journal'' \<longrightarrow>
        objGet r ''type'' = Value (JStr ''article'') \<and>
        map fst r = [''title'', ''authors'', ''type'', ''year'', ''doi'',
                     ''journal'', ''volume'', ''pages'', ''number''] \<and>
        objGet r ''journal'' = Value (ownGet ps ''container-title'') \<and>
        objGet r ''volume'' = Value (ownGet ps ''volume'') \<and>
        objGet r ''pages'' = Value (ownGet ps ''page'') \<and>
        (\<exists>issue. getProp (ownGet ps ''journal-issue'') ''issue'' = Inr issue \<and>
           objGet r ''number'' = Value issue)) \<and>
     (key = ''monograph'' \<longrightarrow>
        objGet r ''type'' = Value (JStr ''book'') \<and>
        map fst r = [''title'', ''authors'', ''type'', ''year'', ''doi'', ''publisher''] \<and>
        objGet r ''publisher'' = Value (ownGet ps ''publisher'')) \<and>
     (key = ''report'' \<longrightarrow>
        objGet r ''type'' = Value (JStr ''techreport'') \<and>
        map fst r = [''title'', ''authors'', ''type'', ''year'', ''doi'', ''institution''] \<and>
        objGet r ''institution'' = Value (ownGet ps ''institution'')) \<and>
     (key \<noteq> ''article-journal'' \<and> key \<noteq> ''monograph'' \<and> key \<noteq> ''report'' \<longrightarrow>
        (\<forall>s. objGet r ''type'' \<noteq> Value (JStr s)) \<and>
        map fst r = [''title'', ''authors'', ''type'', ''year'', ''doi''])"
proof -
  obtain ps where p: "payload = JObj ps"
    using doiSuggestion_object [OF assms] by blast
  obtain authors key dp issued0 year fields where
      key: "toString (ownGet ps ''type'') = Inr key"
      and dp: "getProp (ownGet ps ''issued'') ''date-parts'' = Inr dp"
      and i0: "getIndex dp 0 = Inr issued0"
      and yr: "getIndex issued0 0 = Inr year"
      and r: "r = [(''title'', Value (ownGet ps ''title'')), (''authors'', Value (JArr authors)),
                   (''type'', objGet DOI_TYPE_LOOKUP key), (''year'', Value year),
                   (''doi'', Value (JStr identifier))] @ fields"
      and fields: "(if key = ''article-journal''
        then \<exists>issue. fields = [(''journal'', Value (ownGet ps ''container-title'')),
                     (''volume'', Value (ownGet ps ''volume'')),
                     (''pages'', Value (ownGet ps ''page'')),
                     (''number'', Value issue)] \<and>
             getProp (ownGet ps ''journal-issue'') ''issue'' = Inr issue
        else if key = ''monograph''
        then fields = [(''publisher'', Value (ownGet ps ''publisher''))]
        else if key = ''report''
        then fields = [(''institution'', Value (ownGet ps ''institution''))]
        else fields = [])"
    by (rule doiSuggestion_Inr [OF assms [unfolded p]])
  let ?type = "objGet DOI_TYPE_LOOKUP key"
  have b1: "take 5 (map fst r) = [''title'', ''authors'', ''type'', ''year'', ''doi'']"
    unfolding r by simp
  have b2: "objGet r ''title'' = Value (ownGet ps ''title'')"
    unfolding r by (simp add: objGet_def)
  have b3: "\<exists>authors. objGet r ''authors'' = Value (JArr authors)"
    unfolding r by (simp add: objGet_def)
  have b4: "objGet r ''doi'' = Value (JStr identifier)"
    unfolding r by (simp add: objGet_def)
  have b5: "objGet r ''year'' = Value year"
    unfolding r by (simp add: objGet_def)
  have b6: "objGet r ''type'' = ?type"
    unfolding r by (simp add: objGet_def)
  have article: "key = ''article-journal'' \<longrightarrow>
        objGet r ''type'' = Value (JStr ''article'') \<and>
        map fst r = [''title'', ''authors'', ''type'', ''year'', ''doi'',
                     ''journal'', ''volume'', ''pages'', ''number''] \<and>
        objGet r ''journal'' = Value (ownGet ps ''container-title'') \<and>
        objGet r ''volume'' = Value (ownGet ps ''volume'') \<and>
        objGet r ''pages'' = Value (ownGet ps ''page'') \<and>
        (\<exists>issue. getProp (ownGet ps ''journal-issue'') ''issue'' = Inr issue \<and>
           objGet r ''number'' = Value issue)"
  proof
    assume k: "key = ''article-journal''"
    then have t: "?type = Value (JStr ''article'')" by (simp add: lookup_known)
    from k obtain issue where "fields = [(''journal'', Value (ownGet ps ''container-title'')),
                     (''volume'', Value (ownGet ps ''volume'')),
                     (''pages'', Value (ownGet ps ''page'')),
                     (''number'', Value issue)]"
        and "getProp (ownGet ps ''journal-issue'') ''issue'' = Inr issue"
      using fields by auto
    then show "objGet r ''type'' = Value (JStr ''article'') \<and>
        map fst r = [''title'', ''authors'', ''type'', ''year'', ''doi'',
                     ''journal'', ''volume'', ''pages'', ''number''] \<and>
        objGet r ''journal'' = Value (ownGet ps ''container-title'') \<and>
        objGet r ''volume'' = Value (ownGet ps ''volume'') \<and>
        objGet r ''pages'' = Value (ownGet ps ''page'') \<and>
        (\<exists>issue. getProp (ownGet ps ''journal-issue'') ''issue'' = Inr issue \<and>
           objGet r ''number'' = Value issue)"
      unfolding r t by (simp add: objGet_def)
  qed
  have book: "key = ''monograph'' \<longrightarrow>
        objGet r ''type'' = Value (JStr ''book'') \<and>
        map fst r = [''title'', ''authors'', ''type'', ''year'', ''doi'', ''publisher''] \<and>
        objGet r ''publisher'' = Value (ownGet ps ''publisher'')"
  proof
    assume k: "key = ''monograph''"
    then have t: "?type = Value (JStr ''book'')" by (simp add: lookup_known)
    from k have "fields = [(''publisher'', Value (ownGet ps ''publisher''))]"
      using fields by auto
    then show "objGet r ''type'' = Value (JStr ''book'') \<and>
        map fst r = [''title'', ''authors'', ''type'', ''year'', ''doi'', ''publisher''] \<and>
        objGet r ''publisher'' = Value (ownGet ps ''publisher'')"
      unfolding r t by (simp add: objGet_def)
  qed
  have report: "key = ''report'' \<longrightarrow>
        objGet r ''type'' = Value (JStr ''techreport'') \<and>
        map fst r = [''title'', ''authors'', ''type'', ''year'', ''doi'', ''institution''] \<and>
        objGet r ''institution'' = Value (ownGet ps ''institution'')"
  proof
    assume k: "key = ''report''"
    then have t: "?type = Value (JStr ''techreport'')" by (simp add: lookup_known)
    from k have "fields = [(''institution'', Value (ownGet ps ''institution''))]"
      using fields by auto
    then show "objGet r ''type'' = Value (JStr ''techreport'') \<and>
        map fst r = [''title'', ''authors'', ''type'', ''year'', ''doi'', ''institution''] \<and>
        objGet r ''institution'' = Value (ownGet ps ''institution'')"
      unfolding r t by (simp add: objGet_def)
  qed
  have other: "key \<noteq> ''article-journal'' \<and> key \<noteq> ''monograph'' \<and> key \<noteq> ''report'' \<longrightarrow>
        (\<forall>s. objGet r ''type'' \<noteq> Value (JStr s)) \<and>
        map fst r = [''title'', ''authors'', ''type'', ''year'', ''doi'']"
  proof
    assume k: "key \<noteq> ''article-journal'' \<and> key \<noteq> ''monograph'' \<and> key \<noteq> ''report''"
    then have l: "\<forall>s. ?type \<noteq> Value (JStr s)"
      using lookup_other_loose [of key] by blast
    from k have "fields = []" using fields by simp
    then show "(\<forall>s. objGet r ''type'' \<noteq> Value (JStr s)) \<and>
        map fst r = [''title'', ''authors'', ''type'', ''year'', ''doi'']"
      using l b6 unfolding r by simp
  qed
  have dates: "\<exists>dateParts first year. getProp (ownGet ps ''issued'') ''date-parts'' = Inr dateParts \<and>
        getIndex dateParts 0 = Inr first \<and> getIndex first 0 = Inr year \<and>
        objGet r ''year'' = Value year"
    using dp i0 yr b5 by auto
  have "payload = JObj ps \<and>
     toString (ownGet ps ''type'') = Inr key \<and>
     take 5 (map fst r) = [''title'', ''authors'', ''type'', ''year'', ''doi''] \<and>
     objGet r ''title'' = Value (ownGet ps ''title'') \<and>
     (\<exists>authors. objGet r ''authors'' = Value (JArr authors)) \<and>
     objGet r ''doi'' = Value (JStr identifier) \<and>
     (\<exists>dateParts first year. getProp (ownGet ps ''issued'') ''date-parts'' = Inr dateParts \<and>
        getIndex dateParts 0 = Inr first \<and> getIndex first 0 = Inr year \<and>
        objGet r ''year'' = Value year) \<and>
     objGet r ''type'' = objGet DOI_TYPE_LOOKUP key \<and>
     (key = ''article-journal'' \<longrightarrow>
        objGet r ''type'' = Value (JStr ''article'') \<and>
        map fst r = [''title'', ''authors'', ''type'', ''year'', ''doi'',
                     ''journal'', ''volume'', ''pages'', ''number''] \<and>
        objGet r ''journal'' = Value (ownGet ps ''container-title'') \<and>
        objGet r ''volume'' = Value (ownGet ps ''volume'') \<and>
        objGet r ''pages'' = Value (ownGet ps ''page'') \<and>
        (\<exists>issue. getProp (ownGet ps ''journal-issue'') ''issue'' = Inr issue \<and>
           objGet r ''number'' = Value issue)) \<and>
     (key = ''monograph'' \<longrightarrow>
        objGet r ''type'' = Value (JStr ''book'') \<and>
        map fst r = [''title'', ''authors'', ''type'', ''year'', ''doi'', ''publisher''] \<and>
        objGet r ''publisher'' = Value (ownGet ps ''publisher'')) \<and>
     (key = ''report'' \<longrightarrow>
        objGet r ''type'' = Value (JStr ''techreport'') \<and>
        map fst r = [''title'', ''authors'', ''type'', ''year'', ''doi'', ''institution''] \<and>
        objGet r ''institution'' = Value (ownGet ps ''institution'')) \<and>
     (key \<noteq> ''article-journal'' \<and> key \<noteq> ''monograph'' \<and> key \<noteq> ''report'' \<longrightarrow>
        (\<forall>s. objGet r ''type'' \<noteq> Value (JStr s)) \<and>
        map fst r = [''title'', ''authors'', ''type'', ''year'', ''doi''])"
    by (intro conjI; fact)
  then show ?thesis
    by (intro exI)
qed

lemma doiAuthor_defined:
  "author \<noteq> JNull \<Longrightarrow> author \<noteq> JUndefined \<Longrightarrow>
   doiAuthor author = Inr (JObj [(''first'', spec_property author ''given''),
                                (''last'', spec_property author ''family'')])"
  by (cases author) (simp_all add: doiAuthor_def spec_property_def)

lemma getIndex_defined:
  "v \<noteq> JNull \<Longrightarrow> v \<noteq> JUndefined \<Longrightarrow> \<exists>x. getIndex v i = Inr x"
  by (cases v) simp_all

lemma getProp_defined:
  "v \<noteq> JNull \<Longrightarrow> v \<noteq> JUndefined \<Longrightarrow> \<exists>x. getProp v k = Inr x"
  by (cases v) simp_all

text \<open>A class of payloads on which the callback completes.\<close>

lemma doiSuggestion_returns:
  assumes "ownGet ps ''author'' = JArr payloadAuthors"
    and "JNull \<notin> set payloadAuthors" and "JUndefined \<notin> set payloadAuthors"
    and "toString (ownGet ps ''type'') = Inr key"
    and "ownGet ps ''issued'' = JObj issued"
    and "ownGet issued ''date-parts'' = JArr (first # rest)"
    and "first \<noteq> JNull" and "first \<noteq> JUndefined"
    and "key = ''article-journal'' \<longrightarrow>
           ownGet ps ''journal-issue'' \<noteq> JNull \<and> ownGet ps ''journal-issue'' \<noteq> JUndefined"
  shows "\<exists>r. doiSuggestion identifier (JObj ps) = Inr r"
proof -
  have a: "mapE doiAuthor payloadAuthors =
      Inr (map (\<lambda>author. JObj [(''first'', spec_property author ''given''),
                               (''last'', spec_property author ''family'')]) payloadAuthors)"
    using assms(2,3) by (intro mapE_Inr_map doiAuthor_defined) auto
  obtain year where y: "getIndex first 0 = Inr year"
    using getIndex_defined [OF assms(7,8)] by blast
  obtain message where m: "toStringP (objGet DOI_TYPE_LOOKUP key) = Inr message"
    using lookup_toString by blast
  show ?thesis
  proof (cases "key = ''article-journal''")
    case True
    then obtain issue where "getProp (ownGet ps ''journal-issue'') ''issue'' = Inr issue"
      using assms(9) getProp_defined by blast
    then show ?thesis
      using True a y assms(1,4,5,6) by (simp add: doiSuggestion_def Let_def lookup_loose)
  next
    case False
    then show ?thesis
      using a y m assms(1,4,5,6) by (simp add: doiSuggestion_def Let_def lookup_loose)
  qed
qed

text \<open>A type that cannot be converted to a property name makes the callback throw.\<close>

lemma doiSuggestion_type_throws:
  assumes "toString (ownGet ps ''type'') = Inl e"
  shows "doiSuggestion identifier (JObj ps) = Inl TypeError"
proof -
  have "\<exists>e'. doiSuggestion identifier (JObj ps) = Inl e'"
    using assms
    by (cases "iterate (ownGet ps ''author'')";
        cases "mapE doiAuthor (projr (iterate (ownGet ps ''author'')))")
       (simp_all add: doiSuggestion_def)
  then show ?thesis
    using error_is_TypeError by metis
qed

subsection \<open>C7: the record built from a DOI payload\<close>

text \<open>
  C7, as the code has it. Whenever the DOI callback completes on a payload, the payload is
  an object whose type converts to a property name, and the reference starts with the
  keys \<open>title\<close>, \<open>authors\<close>, \<open>type\<close>, \<open>year\<close>, \<open>doi\<close>: the title of the payload, an
  array of authors, the entry of \<open>DOI_TYPE_LOOKUP\<close> for the type of the payload, the first
  number of the first date part and the identifier. For the type \<open>article-journal\<close> the
  reference type is \<open>article\<close> and \<open>journal\<close>, \<open>volume\<close>, \<open>pages\<close>, \<open>number\<close> follow; for
  \<open>monograph\<close> it is \<open>book\<close> and \<open>publisher\<close> follows; for \<open>report\<close> it is
  \<open>techreport\<close> and \<open>institution\<close> follows; for every other type the reference type is
  not a string and no field follows. The callback completes on every object whose
  \<open>author\<close> is an array without \<open>null\<close>, whose type converts to a property name, whose
  \<open>issued\<close> is an object with a non-empty \<open>date-parts\<close> array starting with a value that
  is not \<open>null\<close>, and which, when its type is \<open>article-journal\<close>, has a \<open>journal-issue\<close>.
  It throws a \<open>TypeError\<close> on every object whose type does not convert to a property name
  (an object with an own property \<open>toString\<close>).
\<close>

theorem C7_doi_normalization:
  "(doiSuggestion identifier payload = Inr r \<longrightarrow>
     (\<exists>ps key. payload = JObj ps \<and>
     toString (ownGet ps ''type'') = Inr key \<and>
     take 5 (map fst r) = [''title'', ''authors'', ''type'', ''year'', ''doi''] \<and>
     objGet r ''title'' = Value (ownGet ps ''title'') \<and>
     (\<exists>authors. objGet r ''authors'' = Value (JArr authors)) \<and>
     objGet r ''doi'' = Value (JStr identifier) \<and>
     (\<exists>dateParts first year. getProp (ownGet ps ''issued'') ''date-parts'' = Inr dateParts \<and>
        getIndex dateParts 0 = Inr first \<and> getIndex first 0 = Inr year \<and>
        objGet r ''year'' = Value year) \<and>
     objGet r ''type'' = objGet DOI_TYPE_LOOKUP key \<and>
     (key = ''article-journal'' \<longrightarrow>
        objGet r ''type'' = Value (JStr ''article'') \<and>
        map fst r = [''title'', ''authors'', ''type'', ''year'', ''doi'',
                     ''journal'', ''volume'', ''pages'', ''number''] \<and>
        objGet r ''journal'' = Value (ownGet ps ''container-title'') \<and>
        objGet r ''volume'' = Value (ownGet ps ''volume'') \<and>
        objGet r ''pages'' = Value (ownGet ps ''page'') \<and>
        (\<exists>issue. getProp (ownGet ps ''journal-issue'') ''issue'' = Inr issue \<and>
           objGet r ''number'' = Value issue)) \<and>
     (key = ''monograph'' \<longrightarrow>
        objGet r ''type'' = Value (JStr ''book'') \<and>
        map fst r = [''title'', ''authors'', ''type'', ''year'', ''doi'', ''publisher''] \<and>
        objGet r ''publisher'' = Value (ownGet ps ''publisher'')) \<and>
     (key = ''report'' \<longrightarrow>
        objGet r ''type'' = Value (JStr ''techreport'') \<and>
        map fst r = [''title'', ''authors'', ''type'', ''year'', ''doi'', ''institution''] \<and>
        objGet r ''institution'' = Value (ownGet ps ''institution'')) \<and>
     (key \<noteq> ''article-journal'' \<and> key \<noteq> ''monograph'' \<and> key \<noteq> ''report'' \<longrightarrow>
        (\<forall>s. objGet r ''type'' \<noteq> Value (JStr s)) \<and>
        map fst r = [''title'', ''authors'', ''type'', ''year'', ''doi'']))) \<and>
   (ownGet props ''author'' = JArr payloadAuthors \<and>
    JNull \<notin> set payloadAuthors \<and> JUndefined \<notin> set payloadAuthors \<and>
    toString (ownGet props ''type'') = Inr typeKey \<and>
    ownGet props ''issued'' = JObj issued \<and>
    ownGet issued ''date-parts'' = JArr (firstDate # dates) \<and>
    firstDate \<noteq> JNull \<and> firstDate \<noteq> JUndefined \<and>
    (typeKey = ''article-journal'' \<longrightarrow>
       ownGet props ''journal-issue'' \<noteq> JNull \<and> ownGet props ''journal-issue'' \<noteq> JUndefined) \<longrightarrow>
      (\<exists>suggestion. doiSuggestion identifier (JObj props) = Inr suggestion)) \<and>
   ((\<exists>e. toString (ownGet props ''type'') = Inl e) \<longrightarrow>
      doiSuggestion identifier (JObj props) = Inl TypeError)"
proof (intro conjI impI)
  assume "doiSuggestion identifier payload = Inr r"
  then show "\<exists>ps key. payload = JObj ps \<and>
     toString (ownGet ps ''type'') = Inr key \<and>
     take 5 (map fst r) = [''title'', ''authors'', ''type'', ''year'', ''doi''] \<and>
     objGet r ''title'' = Value (ownGet ps ''title'') \<and>
     (\<exists>authors. objGet r ''authors'' = Value (JArr authors)) \<and>
     objGet r ''doi'' = Value (JStr identifier) \<and>
     (\<exists>dateParts first year. getProp (ownGet ps ''issued'') ''date-parts'' = Inr dateParts \<and>
        getIndex dateParts 0 = Inr first \<and> getIndex first 0 = Inr year \<and>
        objGet r ''year'' = Value year) \<and>
     objGet r ''type'' = objGet DOI_TYPE_LOOKUP key \<and>
     (key = ''article-journal'' \<longrightarrow>
        objGet r ''type'' = Value (JStr ''article'') \<and>
        map fst r = [''title'', ''authors'', ''type'', ''year'', ''doi'',
                     ''journal'', ''volume'', ''pages'', ''number''] \<and>
        objGet r ''journal'' = Value (ownGet ps ''container-title'') \<and>
        objGet r ''volume'' = Value (ownGet ps ''volume'') \<and>
        objGet r ''pages'' = Value (ownGet ps ''page'') \<and>
        (\<exists>issue. getProp (ownGet ps ''journal-issue'') ''issue'' = Inr issue \<and>
           objGet r ''number'' = Value issue)) \<and>
     (key = ''monograph'' \<longrightarrow>
        objGet r ''type'' = Value (JStr ''book'') \<and>
        map fst r = [''title'', ''authors'', ''type'', ''year'', ''doi'', ''publisher''] \<and>
        objGet r ''publisher'' = Value (ownGet ps ''publisher'')) \<and>
     (key = ''report'' \<longrightarrow>
        objGet r ''type'' = Value (JStr ''techreport'') \<and>
        map fst r = [''title'', ''authors'', ''type'', ''year'', ''doi'', ''institution''] \<and>
        objGet r ''institution'' = Value (ownGet ps ''institution'')) \<and>
     (key \<noteq> ''article-journal'' \<and> key \<noteq> ''monograph'' \<and> key \<noteq> ''report'' \<longrightarrow>
        (\<forall>s. objGet r ''type'' \<noteq> Value (JStr s)) \<and>
        map fst r = [''title'', ''authors'', ''type'', ''year'', ''doi''])"
    by (rule doiSuggestion_shape)
next
  assume h: "ownGet props ''author'' = JArr payloadAuthors \<and>
    JNull \<notin> set payloadAuthors \<and> JUndefined \<notin> set payloadAuthors \<and>
    toString (ownGet props ''type'') = Inr typeKey \<and>
    ownGet props ''issued'' = JObj issued \<and>
    ownGet issued ''date-parts'' = JArr (firstDate # dates) \<and>
    firstDate \<noteq> JNull \<and> firstDate \<noteq> JUndefined \<and>
    (typeKey = ''article-journal'' \<longrightarrow>
       ownGet props ''journal-issue'' \<noteq> JNull \<and> ownGet props ''journal-issue'' \<noteq> JUndefined)"
  show "\<exists>suggestion. doiSuggestion identifier (JObj props) = Inr suggestion"
    by (rule doiSuggestion_returns [of props payloadAuthors typeKey issued firstDate dates])
       (use h in simp_all)
next
  assume "\<exists>e. toString (ownGet props ''type'') = Inl e"
  then show "doiSuggestion identifier (JObj props) = Inl TypeError"
    using doiSuggestion_type_throws by blast
qed

theorem C7_doi_normalization_witness:
  "doiSuggestion ''10.1000/x''
     (JObj [(''author'', JArr [JObj [(''given'', JStr ''Ada''), (''family'', JStr ''King'')]]),
            (''type'', JStr ''article-journal''),
            (''title'', JStr ''T''),
            (''issued'', JObj [(''date-parts'', JArr [JArr [JNum 2020, JNum 5]])]),
            (''container-title'', JStr ''J''),
            (''volume'', JStr ''12''),
            (''page'', JStr ''1-9''),
            (''journal-issue'', JObj [(''issue'', JStr ''3'')])])
   = Inr [(''title'', Value (JStr ''T'')),
          (''authors'', Value (JArr [JObj [(''first'', JStr ''Ada''), (''last'', JStr ''King'')]])),
          (''type'', Value (JStr ''article'')),
          (''year'', Value (JNum 2020)),
          (''doi'', Value (JStr ''10.1000/x'')),
          (''journal'', Value (JStr ''J'')),
          (''volume'', Value (JStr ''12'')),
          (''pages'', Value (JStr ''1-9'')),
          (''number'', Value (JStr ''3''))] \<and>
   objGet [(''title'', Value (JStr ''T'')),
          (''authors'', Value (JArr [JObj [(''first'', JStr ''Ada''), (''last'', JStr ''King'')]])),
          (''type'', Value (JStr ''article'')),
          (''year'', Value (JNum 2020)),
          (''doi'', Value (JStr ''10.1000/x'')),
          (''journal'', Value (JStr ''J'')),
          (''volume'', Value (JStr ''12'')),
          (''pages'', Value (JStr ''1-9'')),
          (''number'', Value (JStr ''3''))] ''type'' = Value (JStr ''article'') \<and>
   (\<exists>suggestion. doiSuggestion ''10.1000/y''
     (JObj [(''author'', JArr [JObj [(''given'', JStr ''Ada''), (''family'', JStr ''King'')]]),
            (''type'', JStr ''article-journal''),
            (''title'', JStr ''T''),
            (''issued'', JObj [(''date-parts'', JArr [JArr [JNum 2020, JNum 5]])]),
            (''container-title'', JStr ''J''),
            (''volume'', JStr ''12''),
            (''page'', JStr ''1-9''),
            (''journal-issue'', JObj [(''issue'', JStr ''3'')])]) = Inr suggestion) \<and>
   doiSuggestion ''10.1000/z''
     (JObj [(''author'', JArr []),
            (''type'', JObj [(''toString'', JNum 1)]),
            (''title'', JStr ''T''),
            (''issued'', JObj [(''date-parts'', JArr [JArr [JNum 2020]])])])
   = Inl TypeError"
proof -
  let ?as = "[JObj [(''given'', JStr ''Ada''), (''family'', JStr ''King'')]]"
  let ?issued = "[(''date-parts'', JArr [JArr [JNum 2020, JNum 5]])]"
  let ?ps = "[(''author'', JArr ?as),
            (''type'', JStr ''article-journal''),
            (''title'', JStr ''T''),
            (''issued'', JObj ?issued),
            (''container-title'', JStr ''J''),
            (''volume'', JStr ''12''),
            (''page'', JStr ''1-9''),
            (''journal-issue'', JObj [(''issue'', JStr ''3'')])]"
  let ?r = "[(''title'', Value (JStr ''T'')),
          (''authors'', Value (JArr [JObj [(''first'', JStr ''Ada''), (''last'', JStr ''King'')]])),
          (''type'', Value (JStr ''article'')),
          (''year'', Value (JNum 2020)),
          (''doi'', Value (JStr ''10.1000/x'')),
          (''journal'', Value (JStr ''J'')),
          (''volume'', Value (JStr ''12'')),
          (''pages'', Value (JStr ''1-9'')),
          (''number'', Value (JStr ''3''))]"
  let ?qs = "[(''author'', JArr []),
            (''type'', JObj [(''toString'', JNum 1)]),
            (''title'', JStr ''T''),
            (''issued'', JObj [(''date-parts'', JArr [JArr [JNum 2020]])])]"
  have h: "doiSuggestion ''10.1000/x'' (JObj ?ps) = Inr ?r"
    by code_simp
  have k: "toString (ownGet ?ps ''type'') = Inr ''article-journal''"
    by code_simp
  have g: "ownGet ?ps ''author'' = JArr ?as \<and>
    JNull \<notin> set ?as \<and> JUndefined \<notin> set ?as \<and>
    toString (ownGet ?ps ''type'') = Inr ''article-journal'' \<and>
    ownGet ?ps ''issued'' = JObj ?issued \<and>
    ownGet ?issued ''date-parts'' = JArr (JArr [JNum 2020, JNum 5] # []) \<and>
    JArr [JNum 2020, JNum 5] \<noteq> JNull \<and> JArr [JNum 2020, JNum 5] \<noteq> JUndefined \<and>
    (''article-journal'' = ''article-journal'' \<longrightarrow>
       ownGet ?ps ''journal-issue'' \<noteq> JNull \<and> ownGet ?ps ''journal-issue'' \<noteq> JUndefined)"
    by (simp add: ownGet_def)
  have q: "\<exists>e. toString (ownGet ?qs ''type'') = Inl e"
    by (simp add: ownGet_def)
  have t: "objGet ?r ''type'' = Value (JStr ''article'')"
    using conjunct1 [OF C7_doi_normalization [of "''10.1000/x''" "JObj ?ps" ?r]] h k by auto
  have e: "\<exists>suggestion. doiSuggestion ''10.1000/y'' (JObj ?ps) = Inr suggestion"
    using conjunct1 [OF conjunct2 [OF C7_doi_normalization
        [of "''10.1000/y''" _ _ ?ps ?as "''article-journal''" ?issued
            "JArr [JNum 2020, JNum 5]" "[]"]]] g
    by blast
  have z: "doiSuggestion ''10.1000/z'' (JObj ?qs) = Inl TypeError"
    using conjunct2 [OF conjunct2 [OF C7_doi_normalization [of "''10.1000/z''" _ _ ?qs]]] q
    by blast
  show ?thesis
    using h t e z by (intro conjI)
qed

text \<open>
  The claim as stated fails: a payload of a type that is not in \<open>DOI_TYPE_LOOKUP\<close> gives a
  reference whose \<open>type\<close> is \<open>undefined\<close>.
\<close>

theorem C7_doi_normalization_counterexample:
  "doiSuggestion ''10.1000/x''
     (JObj [(''author'', JArr [JObj [(''given'', JStr ''Ada''), (''family'', JStr ''King'')]]),
            (''type'', JStr ''journal-article''),
            (''title'', JStr ''T''),
            (''issued'', JObj [(''date-parts'', JArr [JArr [JNum 2020, JNum 5]])])])
   = Inr [(''title'', Value (JStr ''T'')),
          (''authors'', Value (JArr [JObj [(''first'', JStr ''Ada''), (''last'', JStr ''King'')]])),
          (''type'', Value JUndefined),
          (''year'', Value (JNum 2020)),
          (''doi'', Value (JStr ''10.1000/x''))]"
  by code_simp

subsection \<open>C8: requests in flight\<close>

text \<open>
  C8, as the code has it. A call of \<open>getSuggestions\<close> issues at most one fetch: none when
  it is answered from the cache, and exactly one when it is not and the query matches a
  pattern, whatever requests are still in flight. A response whose callback completes
  overwrites \<open>lastQuery\<close> and \<open>lastSuggestions\<close> with the query and the suggestions of its
  own request, whichever request that is.
\<close>

theorem C8_requests:
  "length (pending (step s (Call query))) \<le> length (pending s) + 1 \<and>
   (query \<noteq> [] \<and> lastQuery (modal s) = Some query \<longrightarrow>
      pending (step s (Call query)) = pending s) \<and>
   (\<not> (query \<noteq> [] \<and> lastQuery (modal s) = Some query) \<and>
    (rx_exec arxivPattern query \<noteq> None \<or> rx_exec doiPattern query \<noteq> None) \<longrightarrow>
      length (pending (step s (Call query))) = length (pending s) + 1) \<and>
   (i < length (pending s) \<and> callback (pending s ! i) = ArxivThen q identifier \<and>
    arxivSuggestions identifier xmlPayload = Inr suggestions \<longrightarrow>
      step s (ResolveXml i xmlPayload) =
        \<lparr>modal = dispatchSuggestions (modal s) q suggestions,
         pending = removeAt i (pending s)\<rparr>) \<and>
   (i < length (pending s) \<and> callback (pending s ! i) = DoiThen q identifier \<and>
    doiSuggestion identifier jsonPayload = Inr suggestion \<longrightarrow>
      step s (ResolveJson i jsonPayload) =
        \<lparr>modal = dispatchSuggestions (modal s) q [suggestion],
         pending = removeAt i (pending s)\<rparr>)"
proof (intro conjI impI)
  show "length (pending (step s (Call query))) \<le> length (pending s) + 1"
    by (cases "getSuggestions (modal s) query") (auto split: option.splits)
next
  assume "query \<noteq> [] \<and> lastQuery (modal s) = Some query"
  then show "pending (step s (Call query)) = pending s"
    by (simp add: getSuggestions_def)
next
  assume h: "\<not> (query \<noteq> [] \<and> lastQuery (modal s) = Some query) \<and>
    (rx_exec arxivPattern query \<noteq> None \<or> rx_exec doiPattern query \<noteq> None)"
  then have "matchGroup arxivPattern ''identifier'' query \<noteq> None \<or>
             matchGroup doiPattern ''identifier'' query \<noteq> None"
    by (simp add: matchGroup_arxiv_None matchGroup_doi_None)
  then show "length (pending (step s (Call query))) = length (pending s) + 1"
    using h by (auto simp: getSuggestions_def Let_def split: option.splits)
next
  assume "i < length (pending s) \<and> callback (pending s ! i) = ArxivThen q identifier \<and>
    arxivSuggestions identifier xmlPayload = Inr suggestions"
  then show "step s (ResolveXml i xmlPayload) =
        \<lparr>modal = dispatchSuggestions (modal s) q suggestions,
         pending = removeAt i (pending s)\<rparr>"
    by (simp add: settle_def arxivThen_def)
next
  assume "i < length (pending s) \<and> callback (pending s ! i) = DoiThen q identifier \<and>
    doiSuggestion identifier jsonPayload = Inr suggestion"
  then show "step s (ResolveJson i jsonPayload) =
        \<lparr>modal = dispatchSuggestions (modal s) q [suggestion],
         pending = removeAt i (pending s)\<rparr>"
    by (simp add: settle_def doiThen_def)
qed

theorem C8_requests_witness:
  "run (newSession []) [Call ''2101.00001'', Call ''2101.00002'',
      ResolveXml 1 (XElement ''feed'' [XElement ''entry'' [XElement ''title'' [XText ''Second'']]])]
   = \<lparr>modal = dispatchSuggestions
        (modal (run (newSession []) [Call ''2101.00001'', Call ''2101.00002'']))
        ''2101.00002''
        [[(''type'', Value (JStr ''article'')), (''authors'', Value (JArr [])),
          (''year'', Value (JNum 2021)), (''title'', Value (JStr ''Second'')),
          (''journal'', Value (JStr ''arXiv'')), (''arxiv'', Value (JStr ''2101.00002'')),
          (''pages'', Value (JStr ''2101.00002''))]],
      pending = removeAt 1 (pending (run (newSession []) [Call ''2101.00001'', Call ''2101.00002'']))\<rparr> \<and>
   length (pending (step (run (newSession []) [Call ''2101.00001'']) (Call ''2101.00002''))) =
     length (pending (run (newSession []) [Call ''2101.00001''])) + 1"
proof -
  let ?s1 = "run (newSession []) [Call ''2101.00001'']"
  let ?s2 = "run (newSession []) [Call ''2101.00001'', Call ''2101.00002'']"
  let ?p = "XElement ''feed'' [XElement ''entry'' [XElement ''title'' [XText ''Second'']]]"
  let ?sugg = "[[(''type'', Value (JStr ''article'')), (''authors'', Value (JArr [])),
          (''year'', Value (JNum 2021)), (''title'', Value (JStr ''Second'')),
          (''journal'', Value (JStr ''arXiv'')), (''arxiv'', Value (JStr ''2101.00002'')),
          (''pages'', Value (JStr ''2101.00002''))]]"
  have miss: "\<not> (''2101.00002'' \<noteq> [] \<and> lastQuery (modal ?s1) = Some ''2101.00002'') \<and>
    (rx_exec arxivPattern ''2101.00002'' \<noteq> None \<or> rx_exec doiPattern ''2101.00002'' \<noteq> None)"
    by code_simp
  have res: "1 < length (pending ?s2) \<and>
    callback (pending ?s2 ! 1) = ArxivThen ''2101.00002'' ''2101.00002'' \<and>
    arxivSuggestions ''2101.00002'' ?p = Inr ?sugg"
    by code_simp
  have r: "run (newSession []) [Call ''2101.00001'', Call ''2101.00002'', ResolveXml 1 ?p] =
           step ?s2 (ResolveXml 1 ?p)"
    by (simp add: run_def)
  have a: "step ?s2 (ResolveXml 1 ?p) =
      \<lparr>modal = dispatchSuggestions (modal ?s2) ''2101.00002'' ?sugg,
       pending = removeAt 1 (pending ?s2)\<rparr>"
    using C8_requests [of ?s2 _ 1 "''2101.00002''" "''2101.00002''" ?p ?sugg] res by blast
  have b: "length (pending (step ?s1 (Call ''2101.00002''))) = length (pending ?s1) + 1"
    using C8_requests [of ?s1 "''2101.00002''"] miss by blast
  show ?thesis
    using a b unfolding r by (intro conjI)
qed

text \<open>
  The claim as stated fails: two calls leave two requests in flight, and when the response
  to the first arrives after the response to the second, the cache ends with the first
  query and its suggestions.
\<close>

theorem C8_requests_counterexample:
  "length (pending (run (newSession []) [Call ''2101.00001'', Call ''2101.00002''])) = 2 \<and>
   modal (run (newSession [])
     [Call ''2101.00001'', Call ''2101.00002'',
      ResolveXml 1 (XElement ''feed'' [XElement ''entry'' [XElement ''title'' [XText ''Second'']]]),
      ResolveXml 0 (XElement ''feed'' [XElement ''entry'' [XElement ''title'' [XText ''First'']]])])
   = \<lparr>lastQuery = Some ''2101.00001'',
      lastSuggestions = [[(''type'', Value (JStr ''article'')), (''authors'', Value (JArr [])),
                          (''year'', Value (JNum 2021)), (''title'', Value (JStr ''First'')),
                          (''journal'', Value (JStr ''arXiv'')), (''arxiv'', Value (JStr ''2101.00001'')),
                          (''pages'', Value (JStr ''2101.00001''))]],
      emptyStateText = ''No results found'', inputEvents = 2\<rparr>"
  by code_simp

subsection \<open>C10: the note created on selection\<close>

text \<open>
  The loop reads the property named by the previous content of \<open>value\<close>. On a reference
  with no property named \<open>undefined\<close> or \<open>[[undefined]]\<close>, which is every reference the
  two callbacks build, \<open>value\<close> is \<open>undefined\<close> or \<open>[[undefined]]\<close> all along, and the
  loop completes.
\<close>

lemma chooseLines_returns:
  assumes "''undefined'' \<notin> fst ` set reference" and "''[[undefined]]'' \<notin> fst ` set reference"
    and "val = Value JUndefined \<or> val = Value (JStr ''[[undefined]]'')"
  shows "\<exists>lines'. chooseLines reference keys val lines = Inr lines'"
  using assms(3)
proof (induction keys arbitrary: val lines)
  case Nil
  show ?case by simp
next
  case (Cons key keys)
  have "map_of reference ''undefined'' = None"
    using assms(1) by (simp add: map_of_eq_None_iff)
  then have u: "objGet reference ''undefined'' = Value JUndefined"
    by (simp add: objGet_def objectPrototype_def)
  have "map_of reference ''[[undefined]]'' = None"
    using assms(2) by (simp add: map_of_eq_None_iff)
  then have w: "objGet reference ''[[undefined]]'' = Value JUndefined"
    by (simp add: objGet_def objectPrototype_def)
  show ?case
  proof (cases "key = ''authors''")
    case True
    then show ?thesis using Cons.IH [OF Cons.prems] by simp
  next
    case False
    from Cons.prems show ?thesis
    proof
      assume "val = Value JUndefined"
      then show ?thesis
        using False u Cons.IH [of "Value JUndefined"] Cons.IH [of "Value (JStr ''[[undefined]]'')"]
        by (simp add: Let_def)
    next
      assume "val = Value (JStr ''[[undefined]]'')"
      then show ?thesis
        using False w Cons.IH [of "Value JUndefined"] Cons.IH [of "Value (JStr ''[[undefined]]'')"]
        by (simp add: Let_def)
    qed
  qed
qed

lemma onChoose_loop_returns:
  assumes "chooseLines reference (map fst reference) (Value JUndefined) [] = Inr lines"
  shows "onChooseSuggestion settings v reference = spec_onChoose settings v reference"
  using assms
  by (auto simp: onChooseSuggestion_def spec_onChoose_def spec_notePath_def createFolder_def
      Let_def split: if_splits option.splits abstractFile.splits sum.splits)

lemma onChoose_loop_throws:
  assumes "chooseLines reference (map fst reference) (Value JUndefined) [] = Inl e"
    and "onChooseSuggestion settings v reference = (v', err)"
  shows "v' p = Some (TFile c) \<longleftrightarrow> v p = Some (TFile c)"
  using assms
  by (auto simp: onChooseSuggestion_def createFolder_def Let_def
      split: if_splits option.splits abstractFile.splits sum.splits)

lemma onChoose_files:
  assumes "toStringP (objGet reference ''title'') = Inr title"
    and "onChooseSuggestion settings v reference = (v', err)"
  shows "((\<exists>c. v (spec_notePath settings title) = Some (TFile c)) \<longrightarrow>
       (\<forall>p c. v' p = Some (TFile c) \<longleftrightarrow> v p = Some (TFile c))) \<and>
    (\<forall>p c. v p = Some (TFile c) \<longrightarrow> v' p = Some (TFile c)) \<and>
    (\<forall>p c. v' p = Some (TFile c) \<and> v p \<noteq> Some (TFile c) \<longrightarrow>
       p = spec_notePath settings title \<and>
       (\<exists>f. formatReference reference True = Inr f \<and> c = noteContent f)) \<and>
    (err = None \<and> (\<forall>c. v (spec_notePath settings title) \<noteq> Some (TFile c)) \<longrightarrow>
       (\<exists>f. formatReference reference True = Inr f \<and>
            v' (spec_notePath settings title) = Some (TFile (noteContent f))))"
  using assms
  by (auto simp: onChooseSuggestion_def spec_notePath_def createFolder_def create_def Let_def
      split: if_splits option.splits abstractFile.splits sum.splits)

lemma onChoose_title_throws:
  assumes "toStringP (objGet reference ''title'') = Inl e"
  shows "onChooseSuggestion settings v reference = (v, Some (Rejected TypeError))"
  using assms error_is_TypeError [of e] by (simp add: onChooseSuggestion_def)

text \<open>
  C10. Take the title as a string (\<open>reference.title + '.md'\<close> converts it, and the
  function rejects with nothing done when that throws). No file that exists is changed;
  when a file already exists at the path of the note
  (\<open>bibliographyFolder + '/' + title + '.md'\<close>, or \<open>title + '.md'\<close> when the folder
  setting is empty) no file is created; a file that is created is at that path and its
  content is exactly \<open>'^^^\n' + formatReference(reference, true) + '\n^^^'\<close>; and when
  the function completes and no file was at the path, that note is there afterwards. The
  local \<open>lines\<close> array has no part in this: whenever its loop completes, which it does on
  every reference without a property named \<open>undefined\<close> or \<open>[[undefined]]\<close>, choosing a
  suggestion does exactly what the description without the loop does, and when the loop
  throws, no file is created.
\<close>

theorem C10_choose:
  "(toStringP (objGet reference ''title'') = Inr title \<and>
    onChooseSuggestion settings v reference = (v', err) \<longrightarrow>
    ((\<exists>c. v (spec_notePath settings title) = Some (TFile c)) \<longrightarrow>
       (\<forall>p c. v' p = Some (TFile c) \<longleftrightarrow> v p = Some (TFile c))) \<and>
    (\<forall>p c. v p = Some (TFile c) \<longrightarrow> v' p = Some (TFile c)) \<and>
    (\<forall>p c. v' p = Some (TFile c) \<and> v p \<noteq> Some (TFile c) \<longrightarrow>
       p = spec_notePath settings title \<and>
       (\<exists>f. formatReference reference True = Inr f \<and> c = noteContent f)) \<and>
    (err = None \<and> (\<forall>c. v (spec_notePath settings title) \<noteq> Some (TFile c)) \<longrightarrow>
       (\<exists>f. formatReference reference True = Inr f \<and>
            v' (spec_notePath settings title) = Some (TFile (noteContent f))))) \<and>
   ((\<exists>e. toStringP (objGet reference ''title'') = Inl e) \<longrightarrow>
      onChooseSuggestion settings v reference = (v, Some (Rejected TypeError))) \<and>
   ((\<exists>lines. chooseLines reference (map fst reference) (Value JUndefined) [] = Inr lines) \<longrightarrow>
      onChooseSuggestion settings v reference = spec_onChoose settings v reference) \<and>
   (''undefined'' \<notin> fst ` set reference \<and> ''[[undefined]]'' \<notin> fst ` set reference \<longrightarrow>
      (\<exists>lines. chooseLines reference (map fst reference) (Value JUndefined) [] = Inr lines) \<and>
      onChooseSuggestion settings v reference = spec_onChoose settings v reference) \<and>
   ((\<exists>e. chooseLines reference (map fst reference) (Value JUndefined) [] = Inl e) \<and>
    onChooseSuggestion settings v reference = (v', err) \<longrightarrow>
      (\<forall>p c. v' p = Some (TFile c) \<longleftrightarrow> v p = Some (TFile c)))"
proof (intro conjI)
  show "toStringP (objGet reference ''title'') = Inr title \<and>
    onChooseSuggestion settings v reference = (v', err) \<longrightarrow>
    ((\<exists>c. v (spec_notePath settings title) = Some (TFile c)) \<longrightarrow>
       (\<forall>p c. v' p = Some (TFile c) \<longleftrightarrow> v p = Some (TFile c))) \<and>
    (\<forall>p c. v p = Some (TFile c) \<longrightarrow> v' p = Some (TFile c)) \<and>
    (\<forall>p c. v' p = Some (TFile c) \<and> v p \<noteq> Some (TFile c) \<longrightarrow>
       p = spec_notePath settings title \<and>
       (\<exists>f. formatReference reference True = Inr f \<and> c = noteContent f)) \<and>
    (err = None \<and> (\<forall>c. v (spec_notePath settings title) \<noteq> Some (TFile c)) \<longrightarrow>
       (\<exists>f. formatReference reference True = Inr f \<and>
            v' (spec_notePath settings title) = Some (TFile (noteContent f))))"
    using onChoose_files [of reference title settings v v' err] by blast
next
  show "(\<exists>e. toStringP (objGet reference ''title'') = Inl e) \<longrightarrow>
      onChooseSuggestion settings v reference = (v, Some (Rejected TypeError))"
    using onChoose_title_throws by blast
next
  show "(\<exists>lines. chooseLines reference (map fst reference) (Value JUndefined) [] = Inr lines) \<longrightarrow>
      onChooseSuggestion settings v reference = spec_onChoose settings v reference"
    using onChoose_loop_returns by blast
next
  show "''undefined'' \<notin> fst ` set reference \<and> ''[[undefined]]'' \<notin> fst ` set reference \<longrightarrow>
      (\<exists>lines. chooseLines reference (map fst reference) (Value JUndefined) [] = Inr lines) \<and>
      onChooseSuggestion settings v reference = spec_onChoose settings v reference"
    using chooseLines_returns [of reference "Value JUndefined" "map fst reference" "[]"]
      onChoose_loop_returns [of reference _ settings v]
    by blast
next
  show "(\<exists>e. chooseLines reference (map fst reference) (Value JUndefined) [] = Inl e) \<and>
    onChooseSuggestion settings v reference = (v', err) \<longrightarrow>
      (\<forall>p c. v' p = Some (TFile c) \<longleftrightarrow> v p = Some (TFile c))"
    using onChoose_loop_throws [of reference _ settings v v' err] by blast
qed

theorem C10_choose_witness:
  "onChooseSuggestion \<lparr>bibliographyFolder = ''bibliography''\<rparr>
     (Map.empty(''bibliography'' \<mapsto> TFolder))
     [(''type'', Value (JStr ''article'')), (''authors'', Value (JArr [])),
      (''title'', Value (JStr ''On Things''))]
   = ((Map.empty(''bibliography'' \<mapsto> TFolder))
        (''bibliography/On Things.md'' \<mapsto>
           TFile (''^^^'' @ [LF] @ ''@article{CITEKEY,'' @ [LF] @ ''  author = {  },'' @ [LF] @
                  ''  title = { On Things }'' @ [LF] @ ''}'' @ [LF] @ ''^^^'')), None) \<and>
   (\<exists>f. formatReference
          [(''type'', Value (JStr ''article'')), (''authors'', Value (JArr [])),
           (''title'', Value (JStr ''On Things''))] True
          = Inr f \<and>
        ((Map.empty(''bibliography'' \<mapsto> TFolder))
        (''bibliography/On Things.md'' \<mapsto>
           TFile (''^^^'' @ [LF] @ ''@article{CITEKEY,'' @ [LF] @ ''  author = {  },'' @ [LF] @
                  ''  title = { On Things }'' @ [LF] @ ''}'' @ [LF] @ ''^^^'')))
          (spec_notePath \<lparr>bibliographyFolder = ''bibliography''\<rparr> ''On Things'')
        = Some (TFile (noteContent f))) \<and>
   spec_onChoose \<lparr>bibliographyFolder = ''bibliography''\<rparr>
     (Map.empty(''bibliography'' \<mapsto> TFolder))
     [(''type'', Value (JStr ''article'')), (''authors'', Value (JArr [])),
      (''title'', Value (JStr ''On Things''))]
   = ((Map.empty(''bibliography'' \<mapsto> TFolder))
        (''bibliography/On Things.md'' \<mapsto>
           TFile (''^^^'' @ [LF] @ ''@article{CITEKEY,'' @ [LF] @ ''  author = {  },'' @ [LF] @
                  ''  title = { On Things }'' @ [LF] @ ''}'' @ [LF] @ ''^^^'')), None) \<and>
   chooseLines
     [(''undefined'', Value (JStr ''authors'')), (''type'', Value (JStr ''article'')),
      (''authors'', Value (JArr [JObj [(''first'', JStr ''Ada''), (''last'', JStr ''King''),
                                       (''toString'', JStr ''x'')]])),
      (''title'', Value (JStr ''T''))]
     [''undefined'', ''type'', ''authors'', ''title''] (Value JUndefined) [] = Inl TypeError \<and>
   formatReference
     [(''undefined'', Value (JStr ''authors'')), (''type'', Value (JStr ''article'')),
      (''authors'', Value (JArr [JObj [(''first'', JStr ''Ada''), (''last'', JStr ''King''),
                                       (''toString'', JStr ''x'')]])),
      (''title'', Value (JStr ''T''))] True
   = Inr (''@article{CITEKEY,'' @ [LF] @ ''  author = { [[King, Ada]] },'' @ [LF] @
          ''  undefined = { authors },'' @ [LF] @ ''  title = { T }'' @ [LF] @ ''}'') \<and>
   onChooseSuggestion \<lparr>bibliographyFolder = ''bibliography''\<rparr>
     (Map.empty(''bibliography'' \<mapsto> TFolder))
     [(''undefined'', Value (JStr ''authors'')), (''type'', Value (JStr ''article'')),
      (''authors'', Value (JArr [JObj [(''first'', JStr ''Ada''), (''last'', JStr ''King''),
                                       (''toString'', JStr ''x'')]])),
      (''title'', Value (JStr ''T''))]
   = (Map.empty(''bibliography'' \<mapsto> TFolder), Some (Rejected TypeError)) \<and>
   (\<forall>p c. (Map.empty(''bibliography'' \<mapsto> TFolder)) p \<noteq> Some (TFile c))"
proof -
  let ?s = "\<lparr>bibliographyFolder = ''bibliography''\<rparr>"
  let ?v = "Map.empty(''bibliography'' \<mapsto> TFolder)"
  let ?r = "[(''type'', Value (JStr ''article'')), (''authors'', Value (JArr [])),
             (''title'', Value (JStr ''On Things''))]"
  let ?q = "[(''undefined'', Value (JStr ''authors'')), (''type'', Value (JStr ''article'')),
      (''authors'', Value (JArr [JObj [(''first'', JStr ''Ada''), (''last'', JStr ''King''),
                                       (''toString'', JStr ''x'')]])),
      (''title'', Value (JStr ''T''))]"
  let ?f = "''@article{CITEKEY,'' @ [LF] @ ''  author = {  },'' @ [LF] @
                  ''  title = { On Things }'' @ [LF] @ ''}''"
  let ?v' = "?v(''bibliography/On Things.md'' \<mapsto> TFile (''^^^'' @ [LF] @ ?f @ [LF] @ ''^^^''))"
  have f: "formatReference ?r True = Inr ?f"
    by code_simp
  have t: "toStringP (objGet ?r ''title'') = Inr ''On Things''"
    by code_simp
  have l: "chooseLines ?r [''type'', ''authors'', ''title''] (Value JUndefined) []
             = Inr [''  type = { undefined },'', ''  title = { undefined },'']"
    by code_simp
  have h: "onChooseSuggestion ?s ?v ?r = (?v', None)"
    by (simp add: onChooseSuggestion_def Let_def t f l create_def noteContent_def
        del: chooseLines.simps)
  have n: "None = (None :: hostError option) \<and>
           (\<forall>c. ?v (spec_notePath ?s ''On Things'') \<noteq> Some (TFile c))"
    by (simp add: spec_notePath_def)
  have k: "''undefined'' \<notin> fst ` set ?r \<and> ''[[undefined]]'' \<notin> fst ` set ?r"
    by simp
  note c10 = C10_choose [of ?r "''On Things''" ?s ?v ?v' None]
  have a: "\<exists>f. formatReference ?r True = Inr f \<and>
             ?v' (spec_notePath ?s ''On Things'') = Some (TFile (noteContent f))"
    using conjunct1 [OF c10] t h n by blast
  have b: "spec_onChoose ?s ?v ?r = (?v', None)"
    using conjunct1 [OF conjunct2 [OF conjunct2 [OF conjunct2 [OF c10]]]] k h by simp
  have lq: "chooseLines ?q [''undefined'', ''type'', ''authors'', ''title''] (Value JUndefined) []
              = Inl TypeError"
    by code_simp
  have fq: "formatReference ?q True
     = Inr (''@article{CITEKEY,'' @ [LF] @ ''  author = { [[King, Ada]] },'' @ [LF] @
          ''  undefined = { authors },'' @ [LF] @ ''  title = { T }'' @ [LF] @ ''}'')"
    by code_simp
  have tq: "toStringP (objGet ?q ''title'') = Inr ''T''"
    by code_simp
  have hq: "onChooseSuggestion ?s ?v ?q = (?v, Some (Rejected TypeError))"
    by (simp add: onChooseSuggestion_def Let_def tq lq del: chooseLines.simps)
  have e: "\<forall>p c. ?v p \<noteq> Some (TFile c)"
    by simp
  show ?thesis
    using h a b lq fq hq e by (intro conjI; simp del: chooseLines.simps)
qed

end
